theory Spec2Isabelle
  imports Main "HOL-Library.Word"
begin

section \<open>JavaScript values used by the service\<close>

subsection \<open>Strings\<close>

text \<open>
  A JavaScript string is a sequence of UTF-16 code units. \<open>str.length\<close> and
  \<open>split('')\<close> count code units; \<open>for (const ch of str)\<close> and \<open>new Set(str)\<close>
  iterate code points, so a surrogate pair is one element there.
\<close>

type_synonym code_unit = "16 word"
type_synonym jsstring = "code_unit list"

definition of_ascii :: "string \<Rightarrow> jsstring" where
  "of_ascii s = map of_char s"

text \<open>WhiteSpace and LineTerminator of ECMAScript: what \<open>trim\<close> strips and \<open>\s\<close> matches.\<close>

definition isWhiteSpace :: "code_unit \<Rightarrow> bool" where
  "isWhiteSpace c \<longleftrightarrow>
     c = 0x09 \<or> c = 0x0A \<or> c = 0x0B \<or> c = 0x0C \<or> c = 0x0D \<or> c = 0x20 \<or> c = 0xA0
     \<or> c = 0x1680 \<or> (0x2000 \<le> c \<and> c \<le> 0x200A) \<or> c = 0x2028 \<or> c = 0x2029
     \<or> c = 0x202F \<or> c = 0x205F \<or> c = 0x3000 \<or> c = 0xFEFF"

definition trim :: "jsstring \<Rightarrow> jsstring" where
  "trim s = rev (dropWhile isWhiteSpace (rev (dropWhile isWhiteSpace s)))"

definition isLeadSurrogate :: "code_unit \<Rightarrow> bool" where
  "isLeadSurrogate c \<longleftrightarrow> 0xD800 \<le> c \<and> c \<le> 0xDBFF"

definition isTrailSurrogate :: "code_unit \<Rightarrow> bool" where
  "isTrailSurrogate c \<longleftrightarrow> 0xDC00 \<le> c \<and> c \<le> 0xDFFF"

text \<open>
  The string iterator: a lead surrogate followed by a trail surrogate is one element of two
  code units, every other code unit (a lone surrogate too) is an element of its own.
\<close>

fun codePoints :: "jsstring \<Rightarrow> jsstring list" where
  "codePoints [] = []"
| "codePoints [c] = [[c]]"
| "codePoints (c # d # cs) =
     (if isLeadSurrogate c \<and> isTrailSurrogate d then [c, d] # codePoints cs
      else [c] # codePoints (d # cs))"

text \<open>\<open>haystack.includes(needle)\<close>: the needle occurs as a run of code units.\<close>

fun includes_str :: "jsstring \<Rightarrow> jsstring \<Rightarrow> bool" where
  "includes_str [] needle = (needle = [])"
| "includes_str (c # cs) needle =
     (take (length needle) (c # cs) = needle \<or> includes_str cs needle)"

text \<open>
  \<open>str.split(/\s+/)\<close>: the pieces between maximal runs of white space; a run at either
  end leaves an empty piece there, and the empty string gives one empty piece.
\<close>

function splitWS :: "jsstring \<Rightarrow> jsstring \<Rightarrow> jsstring list" where
  "splitWS cur [] = [cur]"
| "splitWS cur (c # cs) =
     (if isWhiteSpace c then cur # splitWS [] (dropWhile isWhiteSpace cs)
      else splitWS (cur @ [c]) cs)"
  by pat_completeness auto
termination
  by (relation "measure (\<lambda>(cur, s). length s)")
     (auto simp: le_imp_less_Suc length_dropWhile_le)

subsection \<open>Numbers\<close>

text \<open>
  A JavaScript number is an IEEE double. Every number this service computes is an integer,
  an infinity or NaN, so the integer-valued doubles are modelled by their value; \<open>-0\<close> is
  identified with \<open>0\<close> (the two compare equal under \<open><\<close>, \<open>>\<close> and \<open>!==\<close>).
\<close>

datatype number = Num int | PosInfinity | NegInfinity | NaN

text \<open>The exponent of the unit in the last place of the double nearest to \<open>n\<close>.\<close>

function ulpExp :: "nat \<Rightarrow> nat" where
  "ulpExp n = (if n < 2 ^ 53 then 0 else Suc (ulpExp (n div 2)))"
  by pat_completeness auto
termination
  by (relation "measure (\<lambda>n. n)") auto

declare ulpExp.simps [simp del]

text \<open>Round to nearest, ties to even, with 53 significant bits.\<close>

definition roundNat :: "nat \<Rightarrow> nat" where
  "roundNat n =
     (let e = ulpExp n; q = n div 2 ^ e; r = n mod 2 ^ e
      in if 2 * r > 2 ^ e \<or> (2 * r = 2 ^ e \<and> odd q) then (q + 1) * 2 ^ e else q * 2 ^ e)"

definition toNumber :: "int \<Rightarrow> number" where
  "toNumber i =
     (let m = roundNat (nat \<bar>i\<bar>)
      in if m \<ge> 2 ^ 1024 then (if i < 0 then NegInfinity else PosInfinity)
         else Num (if i < 0 then - int m else int m))"

fun num_add :: "number \<Rightarrow> number \<Rightarrow> number" where
  "num_add (Num a) (Num b) = toNumber (a + b)"
| "num_add NaN _ = NaN"
| "num_add _ NaN = NaN"
| "num_add PosInfinity NegInfinity = NaN"
| "num_add NegInfinity PosInfinity = NaN"
| "num_add PosInfinity _ = PosInfinity"
| "num_add _ PosInfinity = PosInfinity"
| "num_add NegInfinity _ = NegInfinity"
| "num_add _ NegInfinity = NegInfinity"

fun num_less :: "number \<Rightarrow> number \<Rightarrow> bool" where
  "num_less (Num a) (Num b) = (a < b)"
| "num_less NaN _ = False"
| "num_less _ NaN = False"
| "num_less PosInfinity _ = False"
| "num_less _ NegInfinity = False"
| "num_less _ _ = True"

definition isNaN :: "number \<Rightarrow> bool" where
  "isNaN x \<longleftrightarrow> x = NaN"

text \<open>\<open>a !== b\<close> on numbers: NaN differs from everything, itself included.\<close>

definition num_strict_neq :: "number \<Rightarrow> number \<Rightarrow> bool" where
  "num_strict_neq a b \<longleftrightarrow> a = NaN \<or> b = NaN \<or> a \<noteq> b"

subsection \<open>parseInt\<close>

definition digitValue :: "nat \<Rightarrow> code_unit \<Rightarrow> nat option" where
  "digitValue radix c =
     (let v = (if 0x30 \<le> c \<and> c \<le> 0x39 then Some (unat c - 0x30)
               else if 0x61 \<le> c \<and> c \<le> 0x7A then Some (unat c - 0x61 + 10)
               else if 0x41 \<le> c \<and> c \<le> 0x5A then Some (unat c - 0x41 + 10)
               else None)
      in case v of None \<Rightarrow> None | Some d \<Rightarrow> if d < radix then Some d else None)"

definition radixValue :: "nat \<Rightarrow> jsstring \<Rightarrow> nat" where
  "radixValue radix z = foldl (\<lambda>acc c. acc * radix + the (digitValue radix c)) 0 z"

text \<open>
  \<open>parseInt(string)\<close> with no radix: leading white space is skipped, then a sign, then a
  \<open>0x\<close> or \<open>0X\<close> prefix selects radix 16, then the longest run of digits is read; no digit
  gives NaN. The value read is taken exactly and rounded to a double (the standard lets an
  engine approximate a decimal numeral after its 20th significant digit).
\<close>

definition parseInt :: "jsstring \<Rightarrow> number" where
  "parseInt s =
     (let s0 = dropWhile isWhiteSpace s;
          neg = (s0 \<noteq> [] \<and> hd s0 = 0x2D);
          s1 = (if s0 \<noteq> [] \<and> (hd s0 = 0x2B \<or> hd s0 = 0x2D) then tl s0 else s0);
          hex = (length s1 \<ge> 2 \<and> s1 ! 0 = 0x30 \<and> (s1 ! 1 = 0x78 \<or> s1 ! 1 = 0x58));
          radix = (if hex then 16 else 10);
          s2 = (if hex then drop 2 s1 else s1);
          z = takeWhile (\<lambda>c. digitValue radix c \<noteq> None) s2
      in if z = [] then NaN
         else toNumber ((if neg then - 1 else 1) * int (radixValue radix z)))"

subsection \<open>Objects, sets and the Map\<close>

text \<open>
  A plain object with string keys is an association list with one entry for each key:
  \<open>obj[k]\<close> reads it (a missing key is \<open>undefined\<close>, here \<open>None\<close>; no key of
  \<open>Object.prototype\<close> is as short as the keys used here) and \<open>obj[k] = v\<close> writes it.
  A \<open>Set\<close> is the list of its members in insertion order, a \<open>Map\<close> the list of its
  entries in insertion order.
\<close>

type_synonym 'v js_object = "(jsstring \<times> 'v) list"

definition obj_get :: "'v js_object \<Rightarrow> jsstring \<Rightarrow> 'v option" where
  "obj_get obj k = map_of obj k"

fun obj_set :: "'v js_object \<Rightarrow> jsstring \<Rightarrow> 'v \<Rightarrow> 'v js_object" where
  "obj_set [] k v = [(k, v)]"
| "obj_set ((k', v') # rest) k v =
     (if k' = k then (k', v) # rest else (k', v') # obj_set rest k v)"

definition obj_keys :: "'v js_object \<Rightarrow> jsstring list" where
  "obj_keys obj = map fst obj"

definition set_add :: "'a list \<Rightarrow> 'a \<Rightarrow> 'a list" where
  "set_add members x = (if x \<in> set members then members else members @ [x])"

definition set_size :: "'a list \<Rightarrow> nat" where
  "set_size members = length members"

type_synonym 'r store = "'r js_object"

definition store_has :: "'r store \<Rightarrow> jsstring \<Rightarrow> bool" where
  "store_has st k \<longleftrightarrow> obj_get st k \<noteq> None"

definition store_get :: "'r store \<Rightarrow> jsstring \<Rightarrow> 'r option" where
  "store_get st k = obj_get st k"

definition store_set :: "'r store \<Rightarrow> jsstring \<Rightarrow> 'r \<Rightarrow> 'r store" where
  "store_set st k r = obj_set st k r"

definition store_delete :: "'r store \<Rightarrow> jsstring \<Rightarrow> 'r store" where
  "store_delete st k = filter (\<lambda>(k', r). k' \<noteq> k) st"

definition store_values :: "'r store \<Rightarrow> 'r list" where
  "store_values st = map snd st"

subsection \<open>Requests and responses\<close>

text \<open>
  What a handler reads from the request: a field that is missing, a string, or a value of
  another type. What it produces: a status with a JSON body, or an exception that leaves
  the handler.
\<close>

datatype js_value = Undefined | Str jsstring | NonString

datatype js_error = ReferenceError | TypeError

datatype ('r, 'f) body =
    ErrorBody string
  | RecordBody 'r
  | UndefinedBody
  | ListBody "'r list" nat 'f
  | NoBody

datatype ('r, 'f) outcome = Response nat "('r, 'f) body" | Thrown js_error

section \<open>The analyzer and the insert handler\<close>

text \<open>
  Two library functions and the clock are parameters of the model: \<open>lc\<close> is
  \<open>String.prototype.toLowerCase\<close>, \<open>digest\<close> is
  \<open>crypto.createHash('sha256').update(str).digest('hex')\<close>, and \<open>now\<close> is the value of
  \<open>new Date().toISOString()\<close> when the handler runs.
\<close>

text \<open>\<open>charFreq[ch] = (charFreq[ch] || 0) + 1\<close>\<close>

definition charFreq_step :: "nat js_object \<Rightarrow> jsstring \<Rightarrow> nat js_object" where
  "charFreq_step charFreq ch =
     obj_set charFreq ch
       ((case obj_get charFreq ch of None \<Rightarrow> 0 | Some n \<Rightarrow> if n = 0 then 0 else n) + 1)"

text \<open>\<open>str.split(/\s+/).filter(Boolean).length\<close>\<close>

definition wordCount :: "jsstring \<Rightarrow> nat" where
  "wordCount str = length (filter (\<lambda>piece. piece \<noteq> []) (splitWS [] str))"

subsection \<open>The unnamed source file (part 000)\<close>

record properties =
  str_length :: nat
  is_palindrome :: bool
  unique_characters :: nat
  word_count :: nat
  sha256_hash :: jsstring
  character_frequency_map :: "nat js_object"

record string_record =
  rec_id :: jsstring
  rec_value :: jsstring
  rec_properties :: properties
  created_at :: jsstring

definition post_strings ::
  "(jsstring \<Rightarrow> jsstring) \<Rightarrow> (jsstring \<Rightarrow> jsstring) \<Rightarrow> jsstring \<Rightarrow> string_record store
     \<Rightarrow> js_value \<Rightarrow> (string_record, unit) outcome \<times> string_record store" where
  "post_strings lc digest now stringStore v =
     (case v of
        Undefined \<Rightarrow> (Response 422 (ErrorBody ''Missing 'value' field''), stringStore)
      | NonString \<Rightarrow> (Response 422 (ErrorBody '''value' must be a string''), stringStore)
      | Str val \<Rightarrow>
          let str = trim val in
          if str = [] then (Response 400 (ErrorBody '''value' cannot be empty''), stringStore)
          else
            let hash = digest str in
            if store_has stringStore hash
            then (Response 409 (ErrorBody ''String already exists''), stringStore)
            else
              let lower = lc str;
                  isPalindrome = (lower = rev lower);
                  charFreq = foldl charFreq_step [] (codePoints str);
                  wordCount = wordCount str;
                  properties = \<lparr> str_length = length str,
                                 is_palindrome = isPalindrome,
                                 unique_characters = set_size (foldl set_add [] (codePoints str)),
                                 word_count = wordCount,
                                 sha256_hash = hash,
                                 character_frequency_map = charFreq \<rparr>;
                  obj = \<lparr> rec_id = hash, rec_value = str, rec_properties = properties,
                          created_at = now \<rparr>
              in (Response 201 (RecordBody obj), store_set stringStore hash obj))"

subsection \<open>src/index.js\<close>

text \<open>This file spells the palindrome key \<open>is_palidrome\<close>.\<close>

record properties_idx =
  str_length_idx :: nat
  is_palidrome :: bool
  unique_characters_idx :: nat
  word_count_idx :: nat
  sha256_hash_idx :: jsstring
  character_frequency_map_idx :: "nat js_object"

record string_record_idx =
  rec_id_idx :: jsstring
  rec_value_idx :: jsstring
  rec_properties_idx :: properties_idx
  created_at_idx :: jsstring

text \<open>The loop body: \<open>uniqueChars.add(ch); charFreq[ch] = (charFreq[ch] || 0) + 1\<close>\<close>

definition analyse_step_idx ::
  "jsstring list \<times> nat js_object \<Rightarrow> jsstring \<Rightarrow> jsstring list \<times> nat js_object" where
  "analyse_step_idx acc ch = (set_add (fst acc) ch, charFreq_step (snd acc) ch)"

definition post_strings_idx ::
  "(jsstring \<Rightarrow> jsstring) \<Rightarrow> (jsstring \<Rightarrow> jsstring) \<Rightarrow> jsstring \<Rightarrow> string_record_idx store
     \<Rightarrow> js_value \<Rightarrow> (string_record_idx, unit) outcome \<times> string_record_idx store" where
  "post_strings_idx lc digest now stringStore v =
     (case v of
        Undefined \<Rightarrow> (Response 400 (ErrorBody ''Missing 'value', field''), stringStore)
      | NonString \<Rightarrow> (Response 422 (ErrorBody '''value' must be a string''), stringStore)
      | Str val \<Rightarrow>
          let str = trim val in
          if str = [] then (Response 400 (ErrorBody '''value' cannot be empty''), stringStore)
          else
            let hash = digest str in
            if store_has stringStore hash
            then (Response 409 (ErrorBody ''String already exists''), stringStore)
            else
              let lower = lc str;
                  isPalidrome = (lower = rev lower);
                  loop = foldl analyse_step_idx ([], []) (codePoints str);
                  uniqueChars = fst loop;
                  charFreq = snd loop;
                  wordCount = wordCount str;
                  properties = \<lparr> str_length_idx = length str,
                                 is_palidrome = isPalidrome,
                                 unique_characters_idx = set_size uniqueChars,
                                 word_count_idx = wordCount,
                                 sha256_hash_idx = hash,
                                 character_frequency_map_idx = charFreq \<rparr>;
                  obj = \<lparr> rec_id_idx = hash, rec_value_idx = str,
                          rec_properties_idx = properties, created_at_idx = now \<rparr>
              in (Response 201 (RecordBody obj), store_set stringStore hash obj))"

section \<open>Lookup and deletion\<close>

text \<open>
  \<open>app.get("/strings/:value")\<close> of the unnamed file: an unknown string is answered with
  404.
\<close>

definition get_string ::
  "(jsstring \<Rightarrow> jsstring) \<Rightarrow> string_record store \<Rightarrow> js_value
     \<Rightarrow> (string_record, unit) outcome" where
  "get_string digest stringStore v =
     (case v of
        Str val \<Rightarrow>
          if val = [] then Response 400 (ErrorBody ''Invalid string value'')
          else
            let str = trim val in
            if str = [] then Response 400 (ErrorBody ''String cannot be empty'')
            else
              let hash = digest str in
              (case store_get stringStore hash of
                 None \<Rightarrow> Response 404 (ErrorBody ''String not found'')
               | Some stored \<Rightarrow> Response 200 (RecordBody stored))
      | _ \<Rightarrow> Response 400 (ErrorBody ''Invalid string value''))"

text \<open>
  The same route in src/index.js passes whatever \<open>stringStore.get(hash)\<close> returns to
  \<open>res.status(200).json\<close>; for an unknown string that is \<open>undefined\<close>.
\<close>

definition get_string_idx ::
  "(jsstring \<Rightarrow> jsstring) \<Rightarrow> string_record_idx store \<Rightarrow> js_value
     \<Rightarrow> (string_record_idx, unit) outcome" where
  "get_string_idx digest stringStore v =
     (case v of
        Str val \<Rightarrow>
          if val = [] then Response 400 (ErrorBody ''Invalid string value'')
          else
            let str = trim val in
            if str = [] then Response 400 (ErrorBody ''String cannot be empty'')
            else
              let hash = digest str in
              (case store_get stringStore hash of
                 None \<Rightarrow> Response 200 UndefinedBody
               | Some stored \<Rightarrow> Response 200 (RecordBody stored))
      | _ \<Rightarrow> Response 400 (ErrorBody ''Invalid string value''))"

text \<open>\<open>app.delete("/strings/:value")\<close>, the same in both files.\<close>

definition delete_string ::
  "(jsstring \<Rightarrow> jsstring) \<Rightarrow> 'r store \<Rightarrow> js_value \<Rightarrow> ('r, unit) outcome \<times> 'r store" where
  "delete_string digest stringStore v =
     (case v of
        Str val \<Rightarrow>
          if val = [] then (Response 400 (ErrorBody ''Invalid string value''), stringStore)
          else
            let str = trim val in
            if str = [] then (Response 400 (ErrorBody ''String cannot be empty''), stringStore)
            else
              let hash = digest str in
              if \<not> store_has stringStore hash
              then (Response 404 (ErrorBody ''String not found''), stringStore)
              else (Response 204 NoBody, store_delete stringStore hash)
      | _ \<Rightarrow> (Response 400 (ErrorBody ''Invalid string value''), stringStore))"

section \<open>The structured filter listing\<close>

text \<open>
  Each query parameter is absent (\<open>None\<close>) or a string. A parameter given twice or with
  brackets reaches the handler as an array or object and is outside this model.
\<close>

definition truthy :: "jsstring option \<Rightarrow> bool" where
  "truthy p = (case p of None \<Rightarrow> False | Some s \<Rightarrow> s \<noteq> [])"

text \<open>\<open>!obj[k]\<close> for a count: a missing key and a zero are both falsy.\<close>

definition falsy_count :: "nat option \<Rightarrow> bool" where
  "falsy_count c = (case c of None \<Rightarrow> True | Some n \<Rightarrow> n = 0)"

subsection \<open>The unnamed source file (part 000)\<close>

record query =
  q_is_palindrome :: "jsstring option"
  q_min_length :: "jsstring option"
  q_max_length :: "jsstring option"
  q_word_count :: "jsstring option"
  q_contains_character :: "jsstring option"

text \<open>
  The filters object. \<open>None\<close> stands for \<open>undefined\<close> in \<open>f_is_palindrome\<close> and for
  \<open>null\<close> in the other fields of the listing handler; in the object the natural-language
  parser builds, \<open>None\<close> is a key that was never set.
\<close>

record filters =
  f_is_palindrome :: "bool option"
  f_min_length :: "number option"
  f_max_length :: "number option"
  f_word_count :: "number option"
  f_contains_character :: "jsstring option"

definition matches :: "filters \<Rightarrow> string_record \<Rightarrow> bool" where
  "matches filters obj =
     (let props = rec_properties obj in
      if (case f_is_palindrome filters of None \<Rightarrow> False | Some b \<Rightarrow> is_palindrome props \<noteq> b)
        then False
      else if (case f_min_length filters of None \<Rightarrow> False
               | Some m \<Rightarrow> num_less (Num (int (str_length props))) m)
        then False
      else if (case f_max_length filters of None \<Rightarrow> False
               | Some m \<Rightarrow> num_less m (Num (int (str_length props))))
        then False
      else if (case f_word_count filters of None \<Rightarrow> False
               | Some n \<Rightarrow> num_strict_neq (Num (int (word_count props))) n)
        then False
      else if truthy (f_contains_character filters)
              \<and> falsy_count (obj_get (character_frequency_map props)
                                (the (f_contains_character filters)))
        then False
      else True)"

definition get_strings ::
  "(jsstring \<Rightarrow> jsstring) \<Rightarrow> string_record store \<Rightarrow> query
     \<Rightarrow> (string_record, filters) outcome" where
  "get_strings lc stringStore q =
     (if truthy (q_is_palindrome q)
         \<and> lc (the (q_is_palindrome q)) \<notin> set [of_ascii ''true'', of_ascii ''false'']
        then Response 400 (ErrorBody ''is_palindrome must be true or false'')
      else if truthy (q_min_length q) \<and> isNaN (parseInt (the (q_min_length q)))
        then Response 400 (ErrorBody ''min_length must be an integer'')
      else if truthy (q_max_length q) \<and> isNaN (parseInt (the (q_max_length q)))
        then Response 400 (ErrorBody ''max_length must be an integer'')
      else if truthy (q_word_count q) \<and> isNaN (parseInt (the (q_word_count q)))
        then Response 400 (ErrorBody ''word_count must be an integer'')
      else if truthy (q_contains_character q) \<and> length (the (q_contains_character q)) \<noteq> 1
        then Response 400 (ErrorBody ''contains_character must be a single character'')
      else
        let filters =
              \<lparr> f_is_palindrome =
                  (case q_is_palindrome q of None \<Rightarrow> None
                   | Some s \<Rightarrow> Some (lc s = of_ascii ''true'')),
                f_min_length =
                  (if truthy (q_min_length q) then Some (parseInt (the (q_min_length q)))
                   else None),
                f_max_length =
                  (if truthy (q_max_length q) then Some (parseInt (the (q_max_length q)))
                   else None),
                f_word_count =
                  (if truthy (q_word_count q) then Some (parseInt (the (q_word_count q)))
                   else None),
                f_contains_character =
                  (if truthy (q_contains_character q) then q_contains_character q else None) \<rparr>;
            filtered = filter (matches filters) (store_values stringStore)
        in Response 200 (ListBody filtered (length filtered) filters))"

subsection \<open>src/index.js\<close>

record query_idx =
  q_is_palidrome :: "jsstring option"
  q_min_length_idx :: "jsstring option"
  q_max_length_idx :: "jsstring option"
  q_word_count_idx :: "jsstring option"
  q_contains_character_idx :: "jsstring option"

text \<open>
  Here \<open>is_palidrome\<close> is \<open>is_palidrome?.toLowerCase() === 'true'\<close>, a boolean whether
  or not the parameter was sent.
\<close>

record filters_idx =
  f_is_palidrome :: bool
  f_min_length_idx :: "number option"
  f_max_length_idx :: "number option"
  f_word_count_idx :: "number option"
  f_contains_character_idx :: "jsstring option"

text \<open>
  The callback tests \<open>filters.is_palidrome !== undefined\<close>, which a boolean always
  passes, and has no line for \<open>word_count\<close>.
\<close>

definition matches_idx :: "filters_idx \<Rightarrow> string_record_idx \<Rightarrow> bool" where
  "matches_idx filters obj =
     (let props = rec_properties_idx obj in
      if f_is_palidrome filters \<noteq> is_palidrome props
        then False
      else if (case f_min_length_idx filters of None \<Rightarrow> False
               | Some m \<Rightarrow> num_less (Num (int (str_length_idx props))) m)
        then False
      else if (case f_max_length_idx filters of None \<Rightarrow> False
               | Some m \<Rightarrow> num_less m (Num (int (str_length_idx props))))
        then False
      else if truthy (f_contains_character_idx filters)
              \<and> falsy_count (obj_get (character_frequency_map_idx props)
                                (the (f_contains_character_idx filters)))
        then False
      else True)"

definition get_strings_idx ::
  "(jsstring \<Rightarrow> jsstring) \<Rightarrow> string_record_idx store \<Rightarrow> query_idx
     \<Rightarrow> (string_record_idx, filters_idx) outcome" where
  "get_strings_idx lc stringStore q =
     (if truthy (q_is_palidrome q)
         \<and> lc (the (q_is_palidrome q)) \<notin> set [of_ascii ''true'', of_ascii ''false'']
        then Response 400 (ErrorBody ''is_palidrome must be true or false'')
      else if truthy (q_min_length_idx q) \<and> isNaN (parseInt (the (q_min_length_idx q)))
        then Response 400 (ErrorBody ''min_length must be an interger'')
      else if truthy (q_max_length_idx q) \<and> isNaN (parseInt (the (q_max_length_idx q)))
        then Response 400 (ErrorBody ''max_length must be an interger'')
      else if truthy (q_word_count_idx q) \<and> isNaN (parseInt (the (q_word_count_idx q)))
        then Response 400 (ErrorBody ''word_count must be an interger'')
      else if truthy (q_contains_character_idx q)
              \<and> length (the (q_contains_character_idx q)) \<noteq> 1
        then Response 400 (ErrorBody ''contains_character must be a single character'')
      else
        let filters =
              \<lparr> f_is_palidrome =
                  (case q_is_palidrome q of None \<Rightarrow> False
                   | Some s \<Rightarrow> lc s = of_ascii ''true''),
                f_min_length_idx =
                  (if truthy (q_min_length_idx q) then Some (parseInt (the (q_min_length_idx q)))
                   else None),
                f_max_length_idx =
                  (if truthy (q_max_length_idx q) then Some (parseInt (the (q_max_length_idx q)))
                   else None),
                f_word_count_idx =
                  (if truthy (q_word_count_idx q) then Some (parseInt (the (q_word_count_idx q)))
                   else None),
                f_contains_character_idx =
                  (if truthy (q_contains_character_idx q) then q_contains_character_idx q
                   else None) \<rparr>;
            filtered = filter (matches_idx filters) (store_values stringStore)
        in Response 200 (ListBody filtered (length filtered) filters))"

section \<open>The natural-language translator\<close>

subsection \<open>The two regular expressions\<close>

text \<open>
  \<open>str.match(re)\<close> with a regular expression without the \<open>g\<close> flag returns the match
  array of the leftmost match, or \<open>null\<close>. The array holds the matched text and then the
  capture groups; a group that took no part in the match is \<open>undefined\<close> (\<open>None\<close>).
  Without the \<open>i\<close> and \<open>u\<close> flags \<open>\d\<close> is \<open>[0-9]\<close> and \<open>\w\<close> is
  \<open>[A-Za-z0-9_]\<close>.
\<close>

type_synonym match_array = "jsstring option list"

definition isDigit :: "code_unit \<Rightarrow> bool" where
  "isDigit c \<longleftrightarrow> 0x30 \<le> c \<and> c \<le> 0x39"

definition isWordChar :: "code_unit \<Rightarrow> bool" where
  "isWordChar c \<longleftrightarrow>
     (0x41 \<le> c \<and> c \<le> 0x5A) \<or> (0x61 \<le> c \<and> c \<le> 0x7A) \<or> isDigit c \<or> c = 0x5F"

definition strip_prefix :: "jsstring \<Rightarrow> jsstring \<Rightarrow> jsstring option" where
  "strip_prefix p s = (if take (length p) s = p then Some (drop (length p) s) else None)"

definition matched_text :: "jsstring \<Rightarrow> jsstring \<Rightarrow> jsstring" where
  "matched_text s rest = take (length s - length rest) s"

text \<open>
  \<open>/long(er)? than (\d+) characters?/\<close> tried at the start of \<open>s\<close>. Each greedy choice
  is the only one that can succeed: after \<open>long\<close> the text goes on with \<open>er\<close> or with a
  space, and the digits must run up to the space before \<open>character\<close>.
\<close>

definition lengthRegex_at :: "jsstring \<Rightarrow> match_array option" where
  "lengthRegex_at s =
     (case strip_prefix (of_ascii ''long'') s of
        None \<Rightarrow> None
      | Some s1 \<Rightarrow>
          let er = strip_prefix (of_ascii ''er'') s1;
              s2 = (case er of None \<Rightarrow> s1 | Some r \<Rightarrow> r)
          in (case strip_prefix (of_ascii '' than '') s2 of
                None \<Rightarrow> None
              | Some s3 \<Rightarrow>
                  let digits = takeWhile isDigit s3;
                      s4 = dropWhile isDigit s3
                  in if digits = [] then None
                     else (case strip_prefix (of_ascii '' character'') s4 of
                             None \<Rightarrow> None
                           | Some s5 \<Rightarrow>
                               let s6 = (case strip_prefix (of_ascii ''s'') s5 of
                                           None \<Rightarrow> s5 | Some r \<Rightarrow> r)
                               in Some [Some (matched_text s s6),
                                        (case er of None \<Rightarrow> None
                                         | Some r \<Rightarrow> Some (of_ascii ''er'')),
                                        Some digits])))"

text \<open>
  \<open>/contains(?: the)? letter (\w)/\<close> tried at the start of \<open>s\<close>. After \<open>contains\<close> the
  text goes on with \<open> the\<close> or with \<open> letter\<close>, never both.
\<close>

definition containsRegex_at :: "jsstring \<Rightarrow> match_array option" where
  "containsRegex_at s =
     (case strip_prefix (of_ascii ''contains'') s of
        None \<Rightarrow> None
      | Some s1 \<Rightarrow>
          let s2 = (case strip_prefix (of_ascii '' the'') s1 of None \<Rightarrow> s1 | Some r \<Rightarrow> r)
          in (case strip_prefix (of_ascii '' letter '') s2 of
                None \<Rightarrow> None
              | Some s3 \<Rightarrow>
                  (case s3 of
                     [] \<Rightarrow> None
                   | c # s4 \<Rightarrow>
                       if isWordChar c then Some [Some (matched_text s s4), Some [c]]
                       else None)))"

fun regex_match :: "(jsstring \<Rightarrow> match_array option) \<Rightarrow> jsstring \<Rightarrow> match_array option" where
  "regex_match at [] = at []"
| "regex_match at (c # cs) =
     (case at (c # cs) of Some m \<Rightarrow> Some m | None \<Rightarrow> regex_match at cs)"

subsection \<open>The unnamed source file (part 000)\<close>

definition no_filters :: filters where
  "no_filters = \<lparr> f_is_palindrome = None, f_min_length = None, f_max_length = None,
                   f_word_count = None, f_contains_character = None \<rparr>"

text \<open>\<open>Object.keys(filters).length\<close>\<close>

definition keys_count :: "filters \<Rightarrow> nat" where
  "keys_count f =
     (if f_is_palindrome f = None then 0 else 1) + (if f_min_length f = None then 0 else 1)
     + (if f_max_length f = None then 0 else 1) + (if f_word_count f = None then 0 else 1)
     + (if f_contains_character f = None then 0 else 1)"

definition parseNaturalLanguage :: "(jsstring \<Rightarrow> jsstring) \<Rightarrow> jsstring \<Rightarrow> filters option" where
  "parseNaturalLanguage lc query0 =
     (let query = lc query0;
          filters = no_filters;
          filters = (if includes_str query (of_ascii ''palindrome'')
                        \<or> includes_str query (of_ascii ''palindromic'')
                     then filters \<lparr> f_is_palindrome := Some True \<rparr> else filters);
          filters = (if includes_str query (of_ascii ''single word'')
                     then filters \<lparr> f_word_count := Some (Num 1) \<rparr> else filters);
          lengthMatch = regex_match lengthRegex_at query;
          filters = (case lengthMatch of
                       None \<Rightarrow> filters
                     | Some m \<Rightarrow>
                         filters \<lparr> f_min_length :=
                                     Some (num_add (parseInt (the (m ! 2))) (Num 1)) \<rparr>);
          containsMatch = regex_match containsRegex_at query;
          filters = (case containsMatch of
                       None \<Rightarrow> filters
                     | Some m \<Rightarrow> filters \<lparr> f_contains_character := m ! 1 \<rparr>)
      in if keys_count filters \<noteq> 0 then Some filters else None)"

text \<open>The callback of the natural-language handler tests each key against \<open>undefined\<close>.\<close>

definition nl_matches :: "filters \<Rightarrow> string_record \<Rightarrow> bool" where
  "nl_matches parsedFilters obj =
     (let props = rec_properties obj in
      if (case f_is_palindrome parsedFilters of None \<Rightarrow> False
          | Some b \<Rightarrow> is_palindrome props \<noteq> b)
        then False
      else if (case f_word_count parsedFilters of None \<Rightarrow> False
               | Some n \<Rightarrow> num_strict_neq (Num (int (word_count props))) n)
        then False
      else if (case f_min_length parsedFilters of None \<Rightarrow> False
               | Some m \<Rightarrow> num_less (Num (int (str_length props))) m)
        then False
      else if (case f_contains_character parsedFilters of None \<Rightarrow> False
               | Some c \<Rightarrow> falsy_count (obj_get (character_frequency_map props) c))
        then False
      else True)"

definition filter_by_natural_language ::
  "(jsstring \<Rightarrow> jsstring) \<Rightarrow> string_record store \<Rightarrow> js_value
     \<Rightarrow> (string_record, jsstring \<times> filters) outcome" where
  "filter_by_natural_language lc stringStore q =
     (case q of
        Str query \<Rightarrow>
          if query = [] then Response 400 (ErrorBody ''Query parameter is required'')
          else
            (case parseNaturalLanguage lc query of
               None \<Rightarrow> Response 400 (ErrorBody ''Unable to parse natural language query'')
             | Some parsedFilters \<Rightarrow>
                 let filtered = filter (nl_matches parsedFilters) (store_values stringStore)
                 in Response 200 (ListBody filtered (length filtered) (query, parsedFilters)))
      | _ \<Rightarrow> Response 400 (ErrorBody ''Query parameter is required''))"

subsection \<open>src/index.js\<close>

text \<open>
  The parser of this file looks for \<open>palindromic\<close> and \<open>palidrome\<close>, sets the key
  \<open>is_palidrome\<close>, and stores the whole match array under \<open>contains_character\<close>.
\<close>

record nl_filters_idx =
  nl_is_palidrome :: "bool option"
  nl_word_count :: "number option"
  nl_min_length :: "number option"
  nl_contains_character :: "match_array option"

definition no_filters_idx :: nl_filters_idx where
  "no_filters_idx = \<lparr> nl_is_palidrome = None, nl_word_count = None, nl_min_length = None,
                       nl_contains_character = None \<rparr>"

definition keys_count_idx :: "nl_filters_idx \<Rightarrow> nat" where
  "keys_count_idx f =
     (if nl_is_palidrome f = None then 0 else 1) + (if nl_word_count f = None then 0 else 1)
     + (if nl_min_length f = None then 0 else 1)
     + (if nl_contains_character f = None then 0 else 1)"

definition parseNaturalLanguage_idx ::
  "(jsstring \<Rightarrow> jsstring) \<Rightarrow> jsstring \<Rightarrow> nl_filters_idx option" where
  "parseNaturalLanguage_idx lc query0 =
     (let query = lc query0;
          filters = no_filters_idx;
          filters = (if includes_str query (of_ascii ''palindromic'')
                        \<or> includes_str query (of_ascii ''palidrome'')
                     then filters \<lparr> nl_is_palidrome := Some True \<rparr> else filters);
          filters = (if includes_str query (of_ascii ''single word'')
                     then filters \<lparr> nl_word_count := Some (Num 1) \<rparr> else filters);
          lengthMatch = regex_match lengthRegex_at query;
          filters = (case lengthMatch of
                       None \<Rightarrow> filters
                     | Some m \<Rightarrow>
                         filters \<lparr> nl_min_length :=
                                     Some (num_add (parseInt (the (m ! 2))) (Num 1)) \<rparr>);
          containsMatch = regex_match containsRegex_at query;
          filters = (case containsMatch of
                       None \<Rightarrow> filters
                     | Some m \<Rightarrow> filters \<lparr> nl_contains_character := Some m \<rparr>)
      in if keys_count_idx filters = 0 then None else Some filters)"

text \<open>
  The handler of this file calls \<open>parseNatural(query)\<close>. The file declares
  \<open>parseNaturalLanguage\<close> and nothing named \<open>parseNatural\<close>, so evaluating the call
  raises a ReferenceError and the rest of the handler never runs.
\<close>

definition filter_by_natural_language_idx ::
  "(jsstring \<Rightarrow> jsstring) \<Rightarrow> string_record_idx store \<Rightarrow> js_value
     \<Rightarrow> (string_record_idx, jsstring \<times> nl_filters_idx) outcome" where
  "filter_by_natural_language_idx lc stringStore q =
     (case q of
        Str query \<Rightarrow>
          if query = [] then Response 400 (ErrorBody ''Query parameter is required'')
          else Thrown ReferenceError
      | _ \<Rightarrow> Response 400 (ErrorBody ''Query parameter is required''))"

subsection \<open>Lower-casing of ASCII text\<close>

text \<open>
  On a string of ASCII code units \<open>toLowerCase\<close> maps \<open>A\<close> to \<open>Z\<close> onto \<open>a\<close> to
  \<open>z\<close> and keeps the rest. This instance of the parameter \<open>lc\<close> is used to run the
  model on ASCII inputs.
\<close>

definition toLowerCase_ascii :: "jsstring \<Rightarrow> jsstring" where
  "toLowerCase_ascii s = map (\<lambda>c. if 0x41 \<le> c \<and> c \<le> 0x5A then c + 0x20 else c) s"

section \<open>Observations on results\<close>

text \<open>The sum of the counts of a frequency map.\<close>

definition counts_total :: "nat js_object \<Rightarrow> nat" where
  "counts_total obj = sum_list (map snd obj)"

text \<open>A lead surrogate directly followed by a trail surrogate occurs in the string.\<close>

fun has_surrogate_pair :: "jsstring \<Rightarrow> bool" where
  "has_surrogate_pair (c # d # cs) =
     ((isLeadSurrogate c \<and> isTrailSurrogate d) \<or> has_surrogate_pair (d # cs))"
| "has_surrogate_pair _ = False"

text \<open>
  A string reversed character by character, a character being an element the string
  iterator yields: the code units of a surrogate pair stay in their order.
\<close>

definition reverse_characters :: "jsstring \<Rightarrow> jsstring" where
  "reverse_characters s = concat (rev (codePoints s))"

text \<open>The record sent with a 201 response.\<close>

fun created :: "('r, 'f) outcome \<times> 'r store \<Rightarrow> 'r option" where
  "created (Response status (RecordBody obj), st) = (if status = 201 then Some obj else None)"
| "created _ = None"

text \<open>
  No match of a regular expression starts inside \<open>pre\<close> when the text is
  \<open>pre @ s\<close>: with a match at the start of \<open>s\<close>, that match is the leftmost one.
\<close>

fun no_match_before :: "(jsstring \<Rightarrow> match_array option) \<Rightarrow> jsstring \<Rightarrow> jsstring \<Rightarrow> bool" where
  "no_match_before at [] s = True"
| "no_match_before at (c # pre) s = (at (c # pre @ s) = None \<and> no_match_before at pre s)"

text \<open>
  What holds of the frequency map of a stored value: one key for each distinct element the
  string iterator yields, every count at least 1, and the counts adding up to the number of
  elements iterated. That number is at most the \<open>length\<close> property and equals it exactly
  when the value has no surrogate pair.
\<close>

definition frequency_invariant :: "jsstring \<Rightarrow> nat \<Rightarrow> nat \<Rightarrow> nat js_object \<Rightarrow> bool" where
  "frequency_invariant val len uniq cfm \<longleftrightarrow>
     uniq = length (obj_keys cfm) \<and> distinct (obj_keys cfm)
     \<and> list_all (\<lambda>n. 1 \<le> n) (map snd cfm)
     \<and> counts_total cfm = length (codePoints val)
     \<and> counts_total cfm \<le> len
     \<and> (counts_total cfm = len) = (\<not> has_surrogate_pair val)"

section \<open>The frequency loop\<close>

lemma obj_get_obj_set_same: "obj_get (obj_set m k v) k = Some v"
  by (induction m) (auto simp: obj_get_def)

lemma keys_obj_set: "set (obj_keys (obj_set m k v)) = insert k (set (obj_keys m))"
proof (induction m)
  case Nil
  then show ?case by (simp add: obj_keys_def)
next
  case (Cons e m)
  then show ?case by (cases e) (auto simp: obj_keys_def)
qed

lemma distinct_obj_set: "distinct (obj_keys m) \<Longrightarrow> distinct (obj_keys (obj_set m k v))"
proof (induction m)
  case Nil
  then show ?case by (simp add: obj_keys_def)
next
  case (Cons e m)
  obtain k' v' where e: "e = (k', v')" by (cases e)
  from Cons.prems have d: "distinct (obj_keys m)" and n: "k' \<notin> set (obj_keys m)"
    by (simp_all add: e obj_keys_def)
  show ?case
  proof (cases "k' = k")
    case True
    with Cons.prems show ?thesis by (simp add: e obj_keys_def)
  next
    case False
    have "set (obj_keys (obj_set m k v)) = insert k (set (obj_keys m))" by (rule keys_obj_set)
    with False n have "k' \<notin> set (obj_keys (obj_set m k v))" by simp
    with False Cons.IH[OF d] show ?thesis by (simp add: e obj_keys_def)
  qed
qed

lemma counts_total_step: "counts_total (charFreq_step m ch) = counts_total m + 1"
  unfolding charFreq_step_def counts_total_def obj_get_def
  by (induction m) auto

lemma counts_positive_step:
  "list_all (\<lambda>n. 1 \<le> n) (map snd m) \<Longrightarrow> list_all (\<lambda>n. 1 \<le> n) (map snd (charFreq_step m ch))"
  unfolding charFreq_step_def obj_get_def
  by (induction m) auto

lemma keys_step: "set (obj_keys (charFreq_step m ch)) = insert ch (set (obj_keys m))"
  by (simp add: charFreq_step_def keys_obj_set)

lemma distinct_step: "distinct (obj_keys m) \<Longrightarrow> distinct (obj_keys (charFreq_step m ch))"
  by (simp add: charFreq_step_def distinct_obj_set)

lemma charFreq_loop:
  "distinct (obj_keys m) \<Longrightarrow> list_all (\<lambda>n. 1 \<le> n) (map snd m) \<Longrightarrow>
   distinct (obj_keys (foldl charFreq_step m chs))
   \<and> list_all (\<lambda>n. 1 \<le> n) (map snd (foldl charFreq_step m chs))
   \<and> set (obj_keys (foldl charFreq_step m chs)) = set (obj_keys m) \<union> set chs
   \<and> counts_total (foldl charFreq_step m chs) = counts_total m + length chs"
proof (induction chs arbitrary: m)
  case Nil
  then show ?case by simp
next
  case (Cons ch chs)
  have d: "distinct (obj_keys (charFreq_step m ch))" using Cons.prems(1) by (rule distinct_step)
  have p: "list_all (\<lambda>n. 1 \<le> n) (map snd (charFreq_step m ch))"
    using Cons.prems(2) by (rule counts_positive_step)
  from Cons.IH[OF d p] show ?case
    by (simp add: keys_step counts_total_step)
qed

lemma set_loop:
  "distinct u \<Longrightarrow> distinct (foldl set_add u chs) \<and> set (foldl set_add u chs) = set u \<union> set chs"
proof (induction chs arbitrary: u)
  case Nil
  then show ?case by simp
next
  case (Cons ch chs)
  have "distinct (set_add u ch)" using Cons.prems by (simp add: set_add_def)
  from Cons.IH[OF this] show ?case by (auto simp: set_add_def)
qed

lemma analyse_loop_idx:
  "foldl analyse_step_idx (u, m) chs = (foldl set_add u chs, foldl charFreq_step m chs)"
  by (induction chs arbitrary: u m) (simp_all add: analyse_step_idx_def)

lemma unique_is_key_count:
  "set_size (foldl set_add [] chs) = length (obj_keys (foldl charFreq_step [] chs))"
proof -
  have a: "distinct (foldl set_add [] chs) \<and> set (foldl set_add [] chs) = set [] \<union> set chs"
    by (rule set_loop) simp
  have b: "distinct (obj_keys (foldl charFreq_step [] chs))
     \<and> list_all (\<lambda>n. 1 \<le> n) (map snd (foldl charFreq_step [] chs))
     \<and> set (obj_keys (foldl charFreq_step [] chs)) = set (obj_keys []) \<union> set chs
     \<and> counts_total (foldl charFreq_step [] chs) = counts_total [] + length chs"
    using charFreq_loop[of "[]" chs] by (simp add: obj_keys_def)
  from a have da: "distinct (foldl set_add [] chs)" and sa: "set (foldl set_add [] chs) = set chs"
    by simp_all
  from b have db: "distinct (obj_keys (foldl charFreq_step [] chs))"
    and sb: "set (obj_keys (foldl charFreq_step [] chs)) = set chs"
    by (simp_all add: obj_keys_def)
  have "length (foldl set_add [] chs) = card (set chs)"
    using distinct_card[OF da] sa by simp
  also have "\<dots> = length (obj_keys (foldl charFreq_step [] chs))"
    using distinct_card[OF db] sb by simp
  finally show ?thesis by (simp add: set_size_def)
qed

lemma length_codePoints_le: "length (codePoints s) \<le> length s"
  by (induction s rule: codePoints.induct) auto

lemma length_codePoints_eq:
  "(length (codePoints s) = length s) = (\<not> has_surrogate_pair s)"
proof (induction s rule: codePoints.induct)
  case 1
  then show ?case by simp
next
  case (2 c)
  then show ?case by simp
next
  case (3 c d cs)
  have "length (codePoints cs) \<le> length cs" by (rule length_codePoints_le)
  with 3 show ?case by auto
qed


section \<open>The insert handler\<close>

lemmas string_defs = of_ascii_def isWhiteSpace_def trim_def isLeadSurrogate_def
  isTrailSurrogate_def toLowerCase_ascii_def
lemmas store_defs = obj_get_def store_has_def store_get_def store_set_def store_values_def
  set_add_def set_size_def charFreq_step_def analyse_step_idx_def wordCount_def

lemma post_strings_insert:
  assumes "trim val \<noteq> []" and "\<not> store_has st (digest (trim val))"
  shows "post_strings lc digest now st (Str val) =
    (Response 201 (RecordBody
       \<lparr> rec_id = digest (trim val), rec_value = trim val,
         rec_properties =
           \<lparr> str_length = length (trim val),
             is_palindrome = (lc (trim val) = rev (lc (trim val))),
             unique_characters = set_size (foldl set_add [] (codePoints (trim val))),
             word_count = wordCount (trim val),
             sha256_hash = digest (trim val),
             character_frequency_map = foldl charFreq_step [] (codePoints (trim val)) \<rparr>,
         created_at = now \<rparr>),
     store_set st (digest (trim val))
       \<lparr> rec_id = digest (trim val), rec_value = trim val,
         rec_properties =
           \<lparr> str_length = length (trim val),
             is_palindrome = (lc (trim val) = rev (lc (trim val))),
             unique_characters = set_size (foldl set_add [] (codePoints (trim val))),
             word_count = wordCount (trim val),
             sha256_hash = digest (trim val),
             character_frequency_map = foldl charFreq_step [] (codePoints (trim val)) \<rparr>,
         created_at = now \<rparr>)"
  using assms by (simp add: post_strings_def Let_def)

lemma post_strings_idx_insert:
  assumes "trim val \<noteq> []" and "\<not> store_has st (digest (trim val))"
  shows "post_strings_idx lc digest now st (Str val) =
    (Response 201 (RecordBody
       \<lparr> rec_id_idx = digest (trim val), rec_value_idx = trim val,
         rec_properties_idx =
           \<lparr> str_length_idx = length (trim val),
             is_palidrome = (lc (trim val) = rev (lc (trim val))),
             unique_characters_idx = set_size (foldl set_add [] (codePoints (trim val))),
             word_count_idx = wordCount (trim val),
             sha256_hash_idx = digest (trim val),
             character_frequency_map_idx = foldl charFreq_step [] (codePoints (trim val)) \<rparr>,
         created_at_idx = now \<rparr>),
     store_set st (digest (trim val))
       \<lparr> rec_id_idx = digest (trim val), rec_value_idx = trim val,
         rec_properties_idx =
           \<lparr> str_length_idx = length (trim val),
             is_palidrome = (lc (trim val) = rev (lc (trim val))),
             unique_characters_idx = set_size (foldl set_add [] (codePoints (trim val))),
             word_count_idx = wordCount (trim val),
             sha256_hash_idx = digest (trim val),
             character_frequency_map_idx = foldl charFreq_step [] (codePoints (trim val)) \<rparr>,
         created_at_idx = now \<rparr>)"
  using assms by (simp add: post_strings_idx_def Let_def analyse_loop_idx)

lemma post_strings_conflict:
  assumes "trim val \<noteq> []" and "store_has st (digest (trim val))"
  shows "post_strings lc digest now st (Str val) =
           (Response 409 (ErrorBody ''String already exists''), st)"
  using assms by (simp add: post_strings_def Let_def)

lemma post_strings_idx_conflict:
  assumes "trim val \<noteq> []" and "store_has st (digest (trim val))"
  shows "post_strings_idx lc digest now st (Str val) =
           (Response 409 (ErrorBody ''String already exists''), st)"
  using assms by (simp add: post_strings_idx_def Let_def)

lemma frequency_facts:
  "length (obj_keys (foldl charFreq_step [] (codePoints s))) = set_size (foldl set_add [] (codePoints s))
   \<and> distinct (obj_keys (foldl charFreq_step [] (codePoints s)))
   \<and> list_all (\<lambda>n. 1 \<le> n) (map snd (foldl charFreq_step [] (codePoints s)))
   \<and> counts_total (foldl charFreq_step [] (codePoints s)) = length (codePoints s)
   \<and> counts_total (foldl charFreq_step [] (codePoints s)) \<le> length s
   \<and> (counts_total (foldl charFreq_step [] (codePoints s)) = length s) = (\<not> has_surrogate_pair s)"
proof -
  have b: "distinct (obj_keys (foldl charFreq_step [] (codePoints s)))
     \<and> list_all (\<lambda>n. 1 \<le> n) (map snd (foldl charFreq_step [] (codePoints s)))
     \<and> set (obj_keys (foldl charFreq_step [] (codePoints s))) = set (obj_keys []) \<union> set (codePoints s)
     \<and> counts_total (foldl charFreq_step [] (codePoints s)) = counts_total [] + length (codePoints s)"
    using charFreq_loop[of "[]" "codePoints s"] by (simp add: obj_keys_def)
  from b have "counts_total (foldl charFreq_step [] (codePoints s))
      = counts_total [] + length (codePoints s)"
    by blast
  moreover have "counts_total [] = 0"
    by (simp add: counts_total_def)
  ultimately have t: "counts_total (foldl charFreq_step [] (codePoints s)) = length (codePoints s)"
    by simp
  from b have d: "distinct (obj_keys (foldl charFreq_step [] (codePoints s)))"
    and p: "list_all (\<lambda>n. 1 \<le> n) (map snd (foldl charFreq_step [] (codePoints s)))"
    by blast+
  have u: "length (obj_keys (foldl charFreq_step [] (codePoints s)))
      = set_size (foldl set_add [] (codePoints s))"
    by (simp add: unique_is_key_count)
  have l: "counts_total (foldl charFreq_step [] (codePoints s)) \<le> length s"
    using t length_codePoints_le[of s] by simp
  have e: "(counts_total (foldl charFreq_step [] (codePoints s)) = length s)
      = (\<not> has_surrogate_pair s)"
    using t length_codePoints_eq[of s] by simp
  from u d p t l e show ?thesis
    by blast
qed

lemma frequency_invariant_loop:
  "frequency_invariant s (length s) (set_size (foldl set_add [] (codePoints s)))
     (foldl charFreq_step [] (codePoints s))"
  unfolding frequency_invariant_def
  using frequency_facts[of s] by metis

lemma store_has_after_set: "store_has (store_set st k r) k"
  by (simp add: store_has_def store_set_def obj_get_obj_set_same)

lemma store_get_after_set: "store_get (store_set st k r) k = Some r"
  by (simp add: store_get_def store_set_def obj_get_obj_set_same)

section \<open>Properties of the insert handler\<close>

text \<open>
  Claim C7. Inserting a value that is not yet stored answers 201 with the new record;
  inserting the same trimmed value again answers 409, leaves the store as the first insert
  left it, and the record stored under the digest is still the first one. This holds for
  the handler of the unnamed file and for the one of src/index.js.
\<close>

theorem duplicate_insert_conflict:
  assumes "trim val \<noteq> []"
    and "trim val' = trim val"
    and "\<not> store_has st (digest (trim val))"
    and "\<not> store_has sti (digest (trim val))"
  shows "(\<exists>obj st'.
            post_strings lc digest now st (Str val) = (Response 201 (RecordBody obj), st')
            \<and> rec_value obj = trim val
            \<and> post_strings lc digest now' st' (Str val')
                = (Response 409 (ErrorBody ''String already exists''), st')
            \<and> store_get st' (digest (trim val)) = Some obj)
       \<and> (\<exists>obj st'.
            post_strings_idx lc digest now sti (Str val) = (Response 201 (RecordBody obj), st')
            \<and> rec_value_idx obj = trim val
            \<and> post_strings_idx lc digest now' st' (Str val')
                = (Response 409 (ErrorBody ''String already exists''), st')
            \<and> store_get st' (digest (trim val)) = Some obj)"
proof (rule conjI)
  have e: "trim val' \<noteq> []" using assms(1,2) by simp
  show "\<exists>obj st'.
            post_strings lc digest now st (Str val) = (Response 201 (RecordBody obj), st')
            \<and> rec_value obj = trim val
            \<and> post_strings lc digest now' st' (Str val')
                = (Response 409 (ErrorBody ''String already exists''), st')
            \<and> store_get st' (digest (trim val)) = Some obj"
    using post_strings_conflict[where val = val' and digest = digest and lc = lc and now = now', OF e] assms(2)
    by (simp add: post_strings_insert[where val = val and digest = digest and st = st, OF assms(1) assms(3)] store_has_after_set
        store_get_after_set)
  show "\<exists>obj st'.
            post_strings_idx lc digest now sti (Str val) = (Response 201 (RecordBody obj), st')
            \<and> rec_value_idx obj = trim val
            \<and> post_strings_idx lc digest now' st' (Str val')
                = (Response 409 (ErrorBody ''String already exists''), st')
            \<and> store_get st' (digest (trim val)) = Some obj"
    using post_strings_idx_conflict[where val = val' and digest = digest and lc = lc and now = now', OF e] assms(2)
    by (simp add: post_strings_idx_insert[where val = val and digest = digest and st = sti, OF assms(1) assms(4)] store_has_after_set
        store_get_after_set)
qed

theorem duplicate_insert_conflict_witness:
  "trim (of_ascii ''hello world'') \<noteq> []
   \<and> trim (of_ascii ''  hello world '') = trim (of_ascii ''hello world'')
   \<and> \<not> store_has ([] :: string_record store) (id (trim (of_ascii ''hello world'')))
   \<and> \<not> store_has ([] :: string_record_idx store) (id (trim (of_ascii ''hello world'')))
   \<and> (\<exists>obj st'.
            post_strings toLowerCase_ascii id (of_ascii ''t1'') [] (Str (of_ascii ''hello world''))
              = (Response 201 (RecordBody obj), st')
            \<and> rec_value obj = trim (of_ascii ''hello world'')
            \<and> post_strings toLowerCase_ascii id (of_ascii ''t2'') st'
                 (Str (of_ascii ''  hello world ''))
                = (Response 409 (ErrorBody ''String already exists''), st')
            \<and> store_get st' (id (trim (of_ascii ''hello world''))) = Some obj)
   \<and> (\<exists>obj st'.
            post_strings_idx toLowerCase_ascii id (of_ascii ''t1'') []
                 (Str (of_ascii ''hello world''))
              = (Response 201 (RecordBody obj), st')
            \<and> rec_value_idx obj = trim (of_ascii ''hello world'')
            \<and> post_strings_idx toLowerCase_ascii id (of_ascii ''t2'') st'
                 (Str (of_ascii ''  hello world ''))
                = (Response 409 (ErrorBody ''String already exists''), st')
            \<and> store_get st' (id (trim (of_ascii ''hello world''))) = Some obj)"
proof -
  have h1: "trim (of_ascii ''hello world'') \<noteq> []"
    by (simp add: string_defs)
  have h2: "trim (of_ascii ''  hello world '') = trim (of_ascii ''hello world'')"
    by (simp add: string_defs)
  have h3: "\<not> store_has ([] :: string_record store) (id (trim (of_ascii ''hello world'')))"
    by (simp add: store_has_def obj_get_def)
  have h4: "\<not> store_has ([] :: string_record_idx store) (id (trim (of_ascii ''hello world'')))"
    by (simp add: store_has_def obj_get_def)
  from duplicate_insert_conflict[where val = "of_ascii ''hello world''"
      and val' = "of_ascii ''  hello world ''" and digest = id and st = "[]" and sti = "[]"
      and lc = toLowerCase_ascii and now = "of_ascii ''t1''" and now' = "of_ascii ''t2''",
      OF h1 h2 h3 h4]
  show ?thesis using h1 h2 h3 h4 by blast
qed


lemma reverse_characters_no_pair:
  "\<not> has_surrogate_pair s \<Longrightarrow> reverse_characters s = rev s"
proof (induction s rule: codePoints.induct)
  case 1
  then show ?case by (simp add: reverse_characters_def)
next
  case (2 c)
  then show ?case by (simp add: reverse_characters_def)
next
  case (3 c d cs)
  from "3.prems" have n: "\<not> (isLeadSurrogate c \<and> isTrailSurrogate d)"
    and r: "\<not> has_surrogate_pair (d # cs)"
    by simp_all
  from "3.IH"(2)[OF n r] have "concat (rev (codePoints (d # cs))) = rev (d # cs)"
    by (simp add: reverse_characters_def)
  moreover from n have "codePoints (c # d # cs) = [c] # codePoints (d # cs)"
    by auto
  ultimately show ?case by (simp add: reverse_characters_def)
qed

text \<open>
  Claim C8, amended. The palindrome flag of a newly stored record says whether the
  lower-cased value equals its own reversal taken code unit by code unit, as
  \<open>split('').reverse().join('')\<close> reverses it. When the lower-cased value has no
  surrogate pair this is the reversal character by character; with a surrogate pair the
  two can differ. In both files (src/index.js names the flag \<open>is_palidrome\<close>).
\<close>

theorem palindrome_flag:
  assumes "trim val \<noteq> []"
    and "\<not> store_has st (digest (trim val))"
    and "\<not> store_has sti (digest (trim val))"
  shows "(\<exists>obj. created (post_strings lc digest now st (Str val)) = Some obj
            \<and> rec_value obj = trim val
            \<and> is_palindrome (rec_properties obj)
                = (lc (rec_value obj) = rev (lc (rec_value obj)))
            \<and> (\<not> has_surrogate_pair (lc (rec_value obj)) \<longrightarrow>
                 is_palindrome (rec_properties obj)
                   = (lc (rec_value obj) = reverse_characters (lc (rec_value obj)))))
       \<and> (\<exists>obj. created (post_strings_idx lc digest now sti (Str val)) = Some obj
            \<and> rec_value_idx obj = trim val
            \<and> is_palidrome (rec_properties_idx obj)
                = (lc (rec_value_idx obj) = rev (lc (rec_value_idx obj)))
            \<and> (\<not> has_surrogate_pair (lc (rec_value_idx obj)) \<longrightarrow>
                 is_palidrome (rec_properties_idx obj)
                   = (lc (rec_value_idx obj) = reverse_characters (lc (rec_value_idx obj)))))"
  by (simp add: post_strings_insert[where val = val and digest = digest and st = st, OF assms(1) assms(2)]
      post_strings_idx_insert[where val = val and digest = digest and st = sti, OF assms(1) assms(3)]
      reverse_characters_no_pair)

theorem palindrome_flag_witness:
  "trim (of_ascii ''Racecar'') \<noteq> []
   \<and> \<not> store_has ([] :: string_record store) (id (trim (of_ascii ''Racecar'')))
   \<and> \<not> store_has ([] :: string_record_idx store) (id (trim (of_ascii ''Racecar'')))
   \<and> \<not> has_surrogate_pair (toLowerCase_ascii (trim (of_ascii ''Racecar'')))
   \<and> toLowerCase_ascii (trim (of_ascii ''Racecar''))
       = reverse_characters (toLowerCase_ascii (trim (of_ascii ''Racecar'')))
   \<and> (\<exists>obj. created (post_strings toLowerCase_ascii id (of_ascii ''t'') []
                 (Str (of_ascii ''Racecar''))) = Some obj
            \<and> rec_value obj = trim (of_ascii ''Racecar'')
            \<and> is_palindrome (rec_properties obj)
                = (toLowerCase_ascii (rec_value obj) = rev (toLowerCase_ascii (rec_value obj)))
            \<and> is_palindrome (rec_properties obj)
                = (toLowerCase_ascii (rec_value obj)
                   = reverse_characters (toLowerCase_ascii (rec_value obj)))
            \<and> is_palindrome (rec_properties obj) = True)
   \<and> (\<exists>obj. created (post_strings_idx toLowerCase_ascii id (of_ascii ''t'') []
                 (Str (of_ascii ''Racecar''))) = Some obj
            \<and> rec_value_idx obj = trim (of_ascii ''Racecar'')
            \<and> is_palidrome (rec_properties_idx obj)
                = (toLowerCase_ascii (rec_value_idx obj)
                   = rev (toLowerCase_ascii (rec_value_idx obj)))
            \<and> is_palidrome (rec_properties_idx obj)
                = (toLowerCase_ascii (rec_value_idx obj)
                   = reverse_characters (toLowerCase_ascii (rec_value_idx obj)))
            \<and> is_palidrome (rec_properties_idx obj) = True)"
proof -
  have h1: "trim (of_ascii ''Racecar'') \<noteq> []"
    by (simp add: string_defs)
  have h2: "\<not> store_has ([] :: string_record store) (id (trim (of_ascii ''Racecar'')))"
    by (simp add: store_has_def obj_get_def)
  have h3: "\<not> store_has ([] :: string_record_idx store) (id (trim (of_ascii ''Racecar'')))"
    by (simp add: store_has_def obj_get_def)
  have h4: "\<not> has_surrogate_pair (toLowerCase_ascii (trim (of_ascii ''Racecar'')))"
    by (simp add: string_defs)
  have h5: "toLowerCase_ascii (trim (of_ascii ''Racecar''))
       = reverse_characters (toLowerCase_ascii (trim (of_ascii ''Racecar'')))"
    by (simp add: string_defs reverse_characters_def)
  from palindrome_flag[where val = "of_ascii ''Racecar''" and digest = id
      and st = "[]" and sti = "[]" and lc = toLowerCase_ascii and now = "of_ascii ''t''",
      OF h1 h2 h3]
  show ?thesis using h1 h2 h3 h4 h5 by metis
qed

theorem palindrome_flag_counterexample:
  "map_option (is_palindrome \<circ> rec_properties)
     (created (post_strings toLowerCase_ascii id (of_ascii ''t'') []
        (Str [0x61, 0xD83D, 0xDE00, 0x61])))
     = Some False
   \<and> map_option (is_palidrome \<circ> rec_properties_idx)
     (created (post_strings_idx toLowerCase_ascii id (of_ascii ''t'') []
        (Str [0x61, 0xD83D, 0xDE00, 0x61])))
     = Some False
   \<and> trim [0x61, 0xD83D, 0xDE00, 0x61] = [0x61, 0xD83D, 0xDE00, 0x61]
   \<and> toLowerCase_ascii [0x61, 0xD83D, 0xDE00, 0x61]
       = reverse_characters (toLowerCase_ascii [0x61, 0xD83D, 0xDE00, 0x61])"
  by (simp add: post_strings_def post_strings_idx_def Let_def string_defs store_defs
      reverse_characters_def)

text \<open>
  Claim C10, amended. For a newly stored record \<open>unique_characters\<close> is the number of
  keys of \<open>character_frequency_map\<close>, every count is at least 1, and the counts add up to
  the number of elements the string iterator yields for the value. That sum is at most the
  \<open>length\<close> property and equals it exactly when the value has no surrogate pair; in both
  files.
\<close>

theorem frequency_map_invariant:
  assumes "trim val \<noteq> []"
    and "\<not> store_has st (digest (trim val))"
    and "\<not> store_has sti (digest (trim val))"
  shows "(\<exists>obj. created (post_strings lc digest now st (Str val)) = Some obj
            \<and> rec_value obj = trim val
            \<and> frequency_invariant (rec_value obj) (str_length (rec_properties obj))
                 (unique_characters (rec_properties obj))
                 (character_frequency_map (rec_properties obj)))
       \<and> (\<exists>obj. created (post_strings_idx lc digest now sti (Str val)) = Some obj
            \<and> rec_value_idx obj = trim val
            \<and> frequency_invariant (rec_value_idx obj) (str_length_idx (rec_properties_idx obj))
                 (unique_characters_idx (rec_properties_idx obj))
                 (character_frequency_map_idx (rec_properties_idx obj)))"
  by (simp add: post_strings_insert[where val = val and digest = digest and st = st, OF assms(1) assms(2)]
      post_strings_idx_insert[where val = val and digest = digest and st = sti, OF assms(1) assms(3)]
      frequency_invariant_loop)

theorem frequency_map_invariant_witness:
  "trim (of_ascii '' abca '') \<noteq> []
   \<and> \<not> store_has ([] :: string_record store) (id (trim (of_ascii '' abca '')))
   \<and> \<not> store_has ([] :: string_record_idx store) (id (trim (of_ascii '' abca '')))
   \<and> (\<exists>obj. created (post_strings toLowerCase_ascii id (of_ascii ''t'') []
                 (Str (of_ascii '' abca ''))) = Some obj
            \<and> rec_value obj = trim (of_ascii '' abca '')
            \<and> frequency_invariant (rec_value obj) (str_length (rec_properties obj))
                 (unique_characters (rec_properties obj))
                 (character_frequency_map (rec_properties obj)))
   \<and> (\<exists>obj. created (post_strings_idx toLowerCase_ascii id (of_ascii ''t'') []
                 (Str (of_ascii '' abca ''))) = Some obj
            \<and> rec_value_idx obj = trim (of_ascii '' abca '')
            \<and> frequency_invariant (rec_value_idx obj) (str_length_idx (rec_properties_idx obj))
                 (unique_characters_idx (rec_properties_idx obj))
                 (character_frequency_map_idx (rec_properties_idx obj)))"
proof -
  have h1: "trim (of_ascii '' abca '') \<noteq> []"
    by (simp add: string_defs)
  have h2: "\<not> store_has ([] :: string_record store) (id (trim (of_ascii '' abca '')))"
    by (simp add: store_has_def obj_get_def)
  have h3: "\<not> store_has ([] :: string_record_idx store) (id (trim (of_ascii '' abca '')))"
    by (simp add: store_has_def obj_get_def)
  from frequency_map_invariant[where val = "of_ascii '' abca ''" and digest = id
      and st = "[]" and sti = "[]" and lc = toLowerCase_ascii and now = "of_ascii ''t''",
      OF h1 h2 h3]
  show ?thesis using h1 h2 h3 by blast
qed

theorem frequency_sum_counterexample:
  "map_option (str_length \<circ> rec_properties)
     (created (post_strings toLowerCase_ascii id (of_ascii ''t'') [] (Str [0xD83D, 0xDE00])))
     = Some 2
   \<and> map_option (counts_total \<circ> character_frequency_map \<circ> rec_properties)
     (created (post_strings toLowerCase_ascii id (of_ascii ''t'') [] (Str [0xD83D, 0xDE00])))
     = Some 1
   \<and> map_option (str_length_idx \<circ> rec_properties_idx)
     (created (post_strings_idx toLowerCase_ascii id (of_ascii ''t'') [] (Str [0xD83D, 0xDE00])))
     = Some 2
   \<and> map_option (counts_total \<circ> character_frequency_map_idx \<circ> rec_properties_idx)
     (created (post_strings_idx toLowerCase_ascii id (of_ascii ''t'') [] (Str [0xD83D, 0xDE00])))
     = Some 1"
  by (simp add: post_strings_def post_strings_idx_def Let_def string_defs store_defs counts_total_def)


section \<open>The regular expressions and the numbers they read\<close>

lemma strip_prefix_append: "strip_prefix p (p @ r) = Some r"
  by (simp add: strip_prefix_def)

lemma regex_match_here: "at s = Some m \<Longrightarrow> regex_match at s = Some m"
  by (cases s) simp_all

lemma regex_match_skip: "no_match_before at pre s \<Longrightarrow> regex_match at (pre @ s) = regex_match at s"
  by (induction pre) simp_all

lemma digit_not_space: "isDigit c \<Longrightarrow> \<not> isWhiteSpace c"
  by (auto simp: isDigit_def isWhiteSpace_def word_le_nat_alt)

lemma digit_value: "isDigit c \<Longrightarrow> digitValue 10 c \<noteq> None"
  unfolding isDigit_def digitValue_def Let_def
  by (auto simp: word_le_nat_alt)

lemma digit_not_sign: "isDigit c \<Longrightarrow> c \<noteq> 0x2B \<and> c \<noteq> 0x2D \<and> c \<noteq> 0x78 \<and> c \<noteq> 0x58 \<and> c \<noteq> 0x20"
  by (auto simp: isDigit_def)

lemma takeWhile_run: "list_all P xs \<Longrightarrow> \<not> P y \<Longrightarrow> takeWhile P (xs @ y # ys) = xs"
  by (induction xs) simp_all

lemma dropWhile_run: "list_all P xs \<Longrightarrow> \<not> P y \<Longrightarrow> dropWhile P (xs @ y # ys) = y # ys"
  by (induction xs) simp_all

lemma takeWhile_all: "list_all P xs \<Longrightarrow> takeWhile P xs = xs"
  by (induction xs) simp_all

lemma space_not_digit: "\<not> isDigit 0x20"
  by (simp add: isDigit_def)

lemma lengthRegex_at_match:
  assumes "er = [] \<or> er = of_ascii ''er''" and "ds \<noteq> []" and "list_all isDigit ds"
  shows "\<exists>whole g. lengthRegex_at (of_ascii ''long'' @ er @ of_ascii '' than '' @ ds
            @ of_ascii '' character'' @ post) = Some [whole, g, Some ds]"
proof -
  have tw: "takeWhile isDigit (ds @ of_ascii '' character'' @ post) = ds"
    using takeWhile_run[OF assms(3) space_not_digit] by (simp add: of_ascii_def)
  have dw: "dropWhile isDigit (ds @ of_ascii '' character'' @ post)
      = of_ascii '' character'' @ post"
    using dropWhile_run[OF assms(3) space_not_digit] by (simp add: of_ascii_def)
  have l: "strip_prefix (of_ascii ''long'') (of_ascii ''long'' @ r) = Some r" for r
    by (rule strip_prefix_append)
  have t: "strip_prefix (of_ascii '' than '') (of_ascii '' than '' @ r) = Some r" for r
    by (rule strip_prefix_append)
  have c: "strip_prefix (of_ascii '' character'') (of_ascii '' character'' @ r) = Some r" for r
    by (rule strip_prefix_append)
  from assms(1) show ?thesis
  proof
    assume e: "er = []"
    have n: "strip_prefix (of_ascii ''er'') (of_ascii '' than '' @ r) = None" for r
      by (simp add: of_ascii_def strip_prefix_def)
    show ?thesis
      by (simp add: lengthRegex_at_def e l n t c tw dw assms(2) Let_def)
  next
    assume e: "er = of_ascii ''er''"
    have y: "strip_prefix (of_ascii ''er'') (of_ascii ''er'' @ r) = Some r" for r
      by (rule strip_prefix_append)
    show ?thesis
      by (simp add: lengthRegex_at_def e l y t c tw dw assms(2) Let_def)
  qed
qed

lemma containsRegex_at_match:
  assumes "the_word = [] \<or> the_word = of_ascii '' the''" and "isWordChar c"
  shows "\<exists>whole. containsRegex_at (of_ascii ''contains'' @ the_word @ of_ascii '' letter ''
            @ c # post) = Some [whole, Some [c]]"
proof -
  have k: "strip_prefix (of_ascii ''contains'') (of_ascii ''contains'' @ r) = Some r" for r
    by (rule strip_prefix_append)
  have l: "strip_prefix (of_ascii '' letter '') (of_ascii '' letter '' @ r) = Some r" for r
    by (rule strip_prefix_append)
  from assms(1) show ?thesis
  proof
    assume e: "the_word = []"
    have n: "strip_prefix (of_ascii '' the'') (of_ascii '' letter '' @ r) = None" for r
      by (simp add: of_ascii_def strip_prefix_def)
    show ?thesis
      by (simp add: containsRegex_at_def e k l n assms(2) Let_def)
  next
    assume e: "the_word = of_ascii '' the''"
    have y: "strip_prefix (of_ascii '' the'') (of_ascii '' the'' @ r) = Some r" for r
      by (rule strip_prefix_append)
    show ?thesis
      by (simp add: containsRegex_at_def e k l y assms(2) Let_def)
  qed
qed


lemma ulpExp_small: "n < 2 ^ 53 \<Longrightarrow> ulpExp n = 0"
  by (simp add: ulpExp.simps)

lemma roundNat_small: "n < 2 ^ 53 \<Longrightarrow> roundNat n = n"
  by (simp add: roundNat_def ulpExp_small)

lemma roundNat_2_53: "roundNat (2 ^ 53) = 2 ^ 53"
  by (simp add: roundNat_def ulpExp.simps)

lemma roundNat_safe: "n \<le> 2 ^ 53 \<Longrightarrow> roundNat n = n"
  using roundNat_small[of n] roundNat_2_53 by (cases "n = 2 ^ 53") simp_all

lemma toNumber_safe: "n \<le> 2 ^ 53 \<Longrightarrow> toNumber (int n) = Num (int n)"
proof -
  assume a: "n \<le> 2 ^ 53"
  have "(2::nat) ^ 53 < 2 ^ 1024" by simp
  with a have "n < 2 ^ 1024" by linarith
  with a show ?thesis by (simp add: toNumber_def roundNat_safe)
qed

lemma parseInt_digits:
  assumes "ds \<noteq> []" and "list_all isDigit ds"
  shows "parseInt ds = toNumber (int (radixValue 10 ds))"
proof -
  from assms obtain d rest where ds: "ds = d # rest" and d: "isDigit d"
    by (cases ds) simp_all
  have s0: "dropWhile isWhiteSpace ds = ds"
    using d digit_not_space by (simp add: ds)
  have nohex: "\<not> (length ds \<ge> 2 \<and> ds ! 0 = 0x30 \<and> (ds ! 1 = 0x78 \<or> ds ! 1 = 0x58))"
  proof (cases rest)
    case Nil
    then show ?thesis by (simp add: ds)
  next
    case (Cons e rest')
    with assms(2) have "isDigit e" by (simp add: ds)
    then have "e \<noteq> 0x78 \<and> e \<noteq> 0x58" using digit_not_sign by blast
    then show ?thesis by (simp add: ds Cons)
  qed
  have all: "list_all (\<lambda>c. digitValue 10 c \<noteq> None) ds"
    using assms(2) digit_value unfolding list_all_iff by blast
  have z: "takeWhile (\<lambda>c. digitValue 10 c \<noteq> None) ds = ds"
    using all by (rule takeWhile_all)
  have neg: "(ds \<noteq> [] \<and> hd ds = 0x2D) = False"
    using d digit_not_sign by (simp add: ds)
  have s1: "(if ds \<noteq> [] \<and> (hd ds = 0x2B \<or> hd ds = 0x2D) then tl ds else ds) = ds"
    using d digit_not_sign by (simp add: ds)
  have hex: "(length ds \<ge> 2 \<and> ds ! 0 = 0x30 \<and> (ds ! 1 = 0x78 \<or> ds ! 1 = 0x58)) = False"
    using nohex by blast
  show ?thesis
    unfolding parseInt_def Let_def s0 neg s1 hex if_False z
    using assms(1) by simp
qed

lemma min_length_value:
  assumes "ds \<noteq> []" and "list_all isDigit ds" and "radixValue 10 ds < 2 ^ 53"
  shows "num_add (parseInt ds) (Num 1) = Num (int (radixValue 10 ds) + 1)"
proof -
  have a: "parseInt ds = Num (int (radixValue 10 ds))"
    using assms toNumber_safe[of "radixValue 10 ds"] by (simp add: parseInt_digits)
  have "toNumber (int (radixValue 10 ds + 1)) = Num (int (radixValue 10 ds + 1))"
    using assms(3) by (intro toNumber_safe) simp
  then show ?thesis by (simp add: a add.commute)
qed

section \<open>The filters the translator returns\<close>

text \<open>The result of the parser, one field at a time.\<close>

lemma parseNaturalLanguage_fields:
  "parseNaturalLanguage lc q =
     (let f = \<lparr> f_is_palindrome =
                   (if includes_str (lc q) (of_ascii ''palindrome'')
                       \<or> includes_str (lc q) (of_ascii ''palindromic'')
                    then Some True else None),
                 f_min_length =
                   (case regex_match lengthRegex_at (lc q) of None \<Rightarrow> None
                    | Some m \<Rightarrow> Some (num_add (parseInt (the (m ! 2))) (Num 1))),
                 f_max_length = None,
                 f_word_count =
                   (if includes_str (lc q) (of_ascii ''single word'') then Some (Num 1)
                    else None),
                 f_contains_character =
                   (case regex_match containsRegex_at (lc q) of None \<Rightarrow> None
                    | Some m \<Rightarrow> m ! 1) \<rparr>
      in if keys_count f \<noteq> 0 then Some f else None)"
  by (cases "includes_str (lc q) (of_ascii ''palindrome'')
              \<or> includes_str (lc q) (of_ascii ''palindromic'')";
      cases "includes_str (lc q) (of_ascii ''single word'')";
      cases "regex_match lengthRegex_at (lc q)";
      cases "regex_match containsRegex_at (lc q)";
      simp add: parseNaturalLanguage_def Let_def no_filters_def)

lemma parseNaturalLanguage_idx_fields:
  "parseNaturalLanguage_idx lc q =
     (let f = \<lparr> nl_is_palidrome =
                   (if includes_str (lc q) (of_ascii ''palindromic'')
                       \<or> includes_str (lc q) (of_ascii ''palidrome'')
                    then Some True else None),
                 nl_word_count =
                   (if includes_str (lc q) (of_ascii ''single word'') then Some (Num 1)
                    else None),
                 nl_min_length =
                   (case regex_match lengthRegex_at (lc q) of None \<Rightarrow> None
                    | Some m \<Rightarrow> Some (num_add (parseInt (the (m ! 2))) (Num 1))),
                 nl_contains_character = regex_match containsRegex_at (lc q) \<rparr>
      in if keys_count_idx f = 0 then None else Some f)"
  by (cases "includes_str (lc q) (of_ascii ''palindromic'')
              \<or> includes_str (lc q) (of_ascii ''palidrome'')";
      cases "includes_str (lc q) (of_ascii ''single word'')";
      cases "regex_match lengthRegex_at (lc q)";
      cases "regex_match containsRegex_at (lc q)";
      simp add: parseNaturalLanguage_idx_def Let_def no_filters_idx_def)

lemmas regex_defs = lengthRegex_at_def containsRegex_at_def strip_prefix_def isDigit_def
  isWordChar_def matched_text_def
lemmas number_defs = parseInt_def digitValue_def radixValue_def toNumber_def roundNat_def
  ulpExp.simps

lemma lengthMatch_leftmost:
  assumes "q = pre @ of_ascii ''long'' @ er @ of_ascii '' than '' @ ds
             @ of_ascii '' character'' @ post"
    and "er = [] \<or> er = of_ascii ''er''"
    and "ds \<noteq> []"
    and "list_all isDigit ds"
    and "no_match_before lengthRegex_at pre
           (of_ascii ''long'' @ er @ of_ascii '' than '' @ ds @ of_ascii '' character'' @ post)"
  shows "\<exists>whole g. regex_match lengthRegex_at q = Some [whole, g, Some ds]"
proof -
  obtain whole g where
    m: "lengthRegex_at (of_ascii ''long'' @ er @ of_ascii '' than '' @ ds
          @ of_ascii '' character'' @ post) = Some [whole, g, Some ds]"
    using lengthRegex_at_match[OF assms(2) assms(3) assms(4)] by blast
  have "regex_match lengthRegex_at q
      = regex_match lengthRegex_at (of_ascii ''long'' @ er @ of_ascii '' than '' @ ds
          @ of_ascii '' character'' @ post)"
    unfolding assms(1) using assms(5) by (rule regex_match_skip)
  also have "\<dots> = Some [whole, g, Some ds]"
    using m by (rule regex_match_here)
  finally show ?thesis by blast
qed

section \<open>Properties of the translator\<close>

text \<open>
  Claim C5, amended. When the lower-cased query reads \<open>long than N character\<close> or
  \<open>longer than N character\<close> (an \<open>s\<close> may follow), \<open>N\<close> a run of decimal digits with
  value below \<open>2 ^ 53\<close>, and no match starts further left, both parsers set \<open>min_length\<close>
  to \<open>N + 1\<close>. The bound is where \<open>parseInt(N) + 1\<close> stops being exact in double
  arithmetic.
\<close>

theorem longer_than_sets_min_length:
  assumes "lc query = pre @ of_ascii ''long'' @ er @ of_ascii '' than '' @ ds
             @ of_ascii '' character'' @ post"
    and "er = [] \<or> er = of_ascii ''er''"
    and "ds \<noteq> []"
    and "list_all isDigit ds"
    and "no_match_before lengthRegex_at pre
           (of_ascii ''long'' @ er @ of_ascii '' than '' @ ds @ of_ascii '' character'' @ post)"
    and "radixValue 10 ds < 2 ^ 53"
  shows "(\<exists>f. parseNaturalLanguage lc query = Some f
            \<and> f_min_length f = Some (Num (int (radixValue 10 ds) + 1)))
       \<and> (\<exists>f. parseNaturalLanguage_idx lc query = Some f
            \<and> nl_min_length f = Some (Num (int (radixValue 10 ds) + 1)))"
proof -
  obtain whole g where m: "regex_match lengthRegex_at (lc query) = Some [whole, g, Some ds]"
    using lengthMatch_leftmost[OF assms(1) assms(2) assms(3) assms(4) assms(5)] by blast
  have v: "num_add (parseInt ds) (Num 1) = Num (int (radixValue 10 ds) + 1)"
    using assms(3) assms(4) assms(6) by (rule min_length_value)
  have a: "\<exists>f. parseNaturalLanguage lc query = Some f
            \<and> f_min_length f = Some (Num (int (radixValue 10 ds) + 1))"
    by (simp add: parseNaturalLanguage_fields Let_def m v keys_count_def)
  have b: "\<exists>f. parseNaturalLanguage_idx lc query = Some f
            \<and> nl_min_length f = Some (Num (int (radixValue 10 ds) + 1))"
    by (simp add: parseNaturalLanguage_idx_fields Let_def m v keys_count_idx_def)
  from a b show ?thesis by blast
qed

theorem longer_than_sets_min_length_witness:
  "toLowerCase_ascii (of_ascii ''palindromic strings longer than 10 characters'')
     = of_ascii ''palindromic strings '' @ of_ascii ''long'' @ of_ascii ''er''
       @ of_ascii '' than '' @ of_ascii ''10'' @ of_ascii '' character'' @ of_ascii ''s''
   \<and> of_ascii ''10'' \<noteq> []
   \<and> list_all isDigit (of_ascii ''10'')
   \<and> no_match_before lengthRegex_at (of_ascii ''palindromic strings '')
        (of_ascii ''long'' @ of_ascii ''er'' @ of_ascii '' than '' @ of_ascii ''10''
         @ of_ascii '' character'' @ of_ascii ''s'')
   \<and> radixValue 10 (of_ascii ''10'') < 2 ^ 53
   \<and> (\<exists>f. parseNaturalLanguage toLowerCase_ascii
              (of_ascii ''palindromic strings longer than 10 characters'') = Some f
          \<and> f_min_length f = Some (Num (int (radixValue 10 (of_ascii ''10'')) + 1)))
   \<and> (\<exists>f. parseNaturalLanguage_idx toLowerCase_ascii
              (of_ascii ''palindromic strings longer than 10 characters'') = Some f
          \<and> nl_min_length f = Some (Num (int (radixValue 10 (of_ascii ''10'')) + 1)))
   \<and> radixValue 10 (of_ascii ''10'') = 10
   \<and> parseNaturalLanguage toLowerCase_ascii
        (of_ascii ''palindromic strings longer than 10 characters'')
      = Some \<lparr> f_is_palindrome = Some True, f_min_length = Some (Num 11), f_max_length = None,
               f_word_count = None, f_contains_character = None \<rparr>
   \<and> parseNaturalLanguage_idx toLowerCase_ascii
        (of_ascii ''palindromic strings longer than 10 characters'')
      = Some \<lparr> nl_is_palidrome = Some True, nl_word_count = None,
               nl_min_length = Some (Num 11), nl_contains_character = None \<rparr>"
proof -
  have h1: "toLowerCase_ascii (of_ascii ''palindromic strings longer than 10 characters'')
     = of_ascii ''palindromic strings '' @ of_ascii ''long'' @ of_ascii ''er''
       @ of_ascii '' than '' @ of_ascii ''10'' @ of_ascii '' character'' @ of_ascii ''s''"
    by (simp add: string_defs)
  have h2: "of_ascii ''er'' = [] \<or> of_ascii ''er'' = of_ascii ''er''"
    by simp
  have h3: "of_ascii ''10'' \<noteq> []"
    by (simp add: of_ascii_def)
  have h4: "list_all isDigit (of_ascii ''10'')"
    by (simp add: of_ascii_def isDigit_def)
  have h5: "no_match_before lengthRegex_at (of_ascii ''palindromic strings '')
        (of_ascii ''long'' @ of_ascii ''er'' @ of_ascii '' than '' @ of_ascii ''10''
         @ of_ascii '' character'' @ of_ascii ''s'')"
    by (simp add: of_ascii_def lengthRegex_at_def strip_prefix_def)
  have h6: "radixValue 10 (of_ascii ''10'') < 2 ^ 53"
    by (simp add: of_ascii_def radixValue_def digitValue_def)
  have v: "radixValue 10 (of_ascii ''10'') = 10"
    by (simp add: of_ascii_def radixValue_def digitValue_def)
  have e1: "parseNaturalLanguage toLowerCase_ascii
        (of_ascii ''palindromic strings longer than 10 characters'')
      = Some \<lparr> f_is_palindrome = Some True, f_min_length = Some (Num 11), f_max_length = None,
               f_word_count = None, f_contains_character = None \<rparr>"
    by (simp add: parseNaturalLanguage_def string_defs no_filters_def keys_count_def
        regex_defs number_defs)
  have e2: "parseNaturalLanguage_idx toLowerCase_ascii
        (of_ascii ''palindromic strings longer than 10 characters'')
      = Some \<lparr> nl_is_palidrome = Some True, nl_word_count = None,
               nl_min_length = Some (Num 11), nl_contains_character = None \<rparr>"
    by (simp add: parseNaturalLanguage_idx_def string_defs no_filters_idx_def keys_count_idx_def
        regex_defs number_defs)
  from longer_than_sets_min_length[where lc = toLowerCase_ascii
      and query = "of_ascii ''palindromic strings longer than 10 characters''"
      and pre = "of_ascii ''palindromic strings ''" and er = "of_ascii ''er''"
      and ds = "of_ascii ''10''" and post = "of_ascii ''s''", OF h1 h2 h3 h4 h5 h6]
  show ?thesis using h1 h3 h4 h5 h6 v e1 e2 by blast
qed

theorem longer_than_counterexample:
  "parseNaturalLanguage toLowerCase_ascii
     (of_ascii ''strings longer than 9007199254740992 characters'')
     = Some \<lparr> f_is_palindrome = None, f_min_length = Some (Num 9007199254740992),
              f_max_length = None, f_word_count = None, f_contains_character = None \<rparr>
   \<and> parseNaturalLanguage_idx toLowerCase_ascii
     (of_ascii ''strings longer than 9007199254740992 characters'')
     = Some \<lparr> nl_is_palidrome = None, nl_word_count = None,
              nl_min_length = Some (Num 9007199254740992), nl_contains_character = None \<rparr>"
  by (simp add: parseNaturalLanguage_def parseNaturalLanguage_idx_def string_defs no_filters_def
      no_filters_idx_def keys_count_def keys_count_idx_def regex_defs number_defs)

lemma containsMatch_leftmost:
  assumes "q = pre @ of_ascii ''contains'' @ the_word @ of_ascii '' letter '' @ c # post"
    and "the_word = [] \<or> the_word = of_ascii '' the''"
    and "isWordChar c"
    and "no_match_before containsRegex_at pre
           (of_ascii ''contains'' @ the_word @ of_ascii '' letter '' @ c # post)"
  shows "\<exists>whole. regex_match containsRegex_at q = Some [whole, Some [c]]"
proof -
  obtain whole where
    m: "containsRegex_at (of_ascii ''contains'' @ the_word @ of_ascii '' letter '' @ c # post)
          = Some [whole, Some [c]]"
    using containsRegex_at_match[OF assms(2) assms(3)] by blast
  have "regex_match containsRegex_at q
      = regex_match containsRegex_at
          (of_ascii ''contains'' @ the_word @ of_ascii '' letter '' @ c # post)"
    unfolding assms(1) using assms(4) by (rule regex_match_skip)
  also have "\<dots> = Some [whole, Some [c]]"
    using m by (rule regex_match_here)
  finally show ?thesis by blast
qed

text \<open>
  Claim C6, amended. When the lower-cased query reads \<open>contains letter c\<close> or
  \<open>contains the letter c\<close>, \<open>c\<close> a word character, and no match starts further left, the
  parser of the unnamed file sets \<open>contains_character\<close> to the one-character string
  \<open>c\<close>. The query \<open>strings that contain the letter z\<close> has no \<open>contains\<close> in it and is
  answered with \<open>null\<close>; \<open>strings that contains the letter z\<close> gives
  \<open>{contains_character: 'z'}\<close>.
\<close>

theorem contains_letter_sets_character:
  assumes "lc query = pre @ of_ascii ''contains'' @ the_word @ of_ascii '' letter '' @ c # post"
    and "the_word = [] \<or> the_word = of_ascii '' the''"
    and "isWordChar c"
    and "no_match_before containsRegex_at pre
           (of_ascii ''contains'' @ the_word @ of_ascii '' letter '' @ c # post)"
  shows "\<exists>f. parseNaturalLanguage lc query = Some f \<and> f_contains_character f = Some [c]"
proof -
  obtain whole where m: "regex_match containsRegex_at (lc query) = Some [whole, Some [c]]"
    using containsMatch_leftmost[OF assms(1) assms(2) assms(3) assms(4)] by blast
  show ?thesis
    by (simp add: parseNaturalLanguage_fields Let_def m keys_count_def)
qed

theorem contains_letter_sets_character_witness:
  "toLowerCase_ascii (of_ascii ''strings that contains the letter z'')
     = of_ascii ''strings that '' @ of_ascii ''contains'' @ of_ascii '' the''
       @ of_ascii '' letter '' @ 0x7A # []
   \<and> isWordChar 0x7A
   \<and> no_match_before containsRegex_at (of_ascii ''strings that '')
        (of_ascii ''contains'' @ of_ascii '' the'' @ of_ascii '' letter '' @ 0x7A # [])
   \<and> (\<exists>f. parseNaturalLanguage toLowerCase_ascii
              (of_ascii ''strings that contains the letter z'') = Some f
          \<and> f_contains_character f = Some [0x7A])
   \<and> parseNaturalLanguage toLowerCase_ascii (of_ascii ''strings that contains the letter z'')
      = Some \<lparr> f_is_palindrome = None, f_min_length = None, f_max_length = None,
               f_word_count = None, f_contains_character = Some (of_ascii ''z'') \<rparr>"
proof -
  have h1: "toLowerCase_ascii (of_ascii ''strings that contains the letter z'')
     = of_ascii ''strings that '' @ of_ascii ''contains'' @ of_ascii '' the''
       @ of_ascii '' letter '' @ 0x7A # []"
    by (simp add: string_defs)
  have h2: "of_ascii '' the'' = [] \<or> of_ascii '' the'' = of_ascii '' the''"
    by simp
  have h3: "isWordChar 0x7A"
    by (simp add: isWordChar_def)
  have h4: "no_match_before containsRegex_at (of_ascii ''strings that '')
        (of_ascii ''contains'' @ of_ascii '' the'' @ of_ascii '' letter '' @ 0x7A # [])"
    by (simp add: of_ascii_def containsRegex_at_def strip_prefix_def)
  have e: "parseNaturalLanguage toLowerCase_ascii (of_ascii ''strings that contains the letter z'')
      = Some \<lparr> f_is_palindrome = None, f_min_length = None, f_max_length = None,
               f_word_count = None, f_contains_character = Some (of_ascii ''z'') \<rparr>"
    by (simp add: parseNaturalLanguage_def string_defs no_filters_def keys_count_def regex_defs)
  from contains_letter_sets_character[where lc = toLowerCase_ascii
      and query = "of_ascii ''strings that contains the letter z''"
      and pre = "of_ascii ''strings that ''" and the_word = "of_ascii '' the''"
      and c = "0x7A" and post = "[]", OF h1 h2 h3 h4]
  show ?thesis using h1 h3 h4 e by blast
qed

theorem contain_the_letter_counterexample:
  "parseNaturalLanguage toLowerCase_ascii (of_ascii ''strings that contain the letter z'') = None
   \<and> parseNaturalLanguage_idx toLowerCase_ascii (of_ascii ''strings that contain the letter z'')
       = None"
  by (simp add: parseNaturalLanguage_def parseNaturalLanguage_idx_def string_defs no_filters_def
      no_filters_idx_def keys_count_def keys_count_idx_def regex_defs)

lemma palindrome_keyword:
  assumes "includes_str (lc q) (of_ascii ''palindrome'')
           \<or> includes_str (lc q) (of_ascii ''palindromic'')"
  shows "\<exists>f. parseNaturalLanguage lc q = Some f \<and> f_is_palindrome f = Some True"
  using assms by (simp add: parseNaturalLanguage_fields Let_def keys_count_def)

text \<open>
  Claim C4. The parser of the unnamed file sets \<open>is_palindrome\<close> for a query with
  \<open>palindrome\<close> or \<open>palindromic\<close> in its lower-cased form (lemma
  \<open>palindrome_keyword\<close>). The parser of src/index.js looks for \<open>palindromic\<close> and
  \<open>palidrome\<close>: the query \<open>every palindrome\<close> contains \<open>palindrome\<close> and is answered
  with \<open>null\<close>.
\<close>

theorem palindrome_keyword_missed_idx:
  "includes_str (toLowerCase_ascii (of_ascii ''every palindrome'')) (of_ascii ''palindrome'')
   \<and> parseNaturalLanguage_idx toLowerCase_ascii (of_ascii ''every palindrome'') = None"
  by (simp add: parseNaturalLanguage_idx_def string_defs no_filters_idx_def keys_count_idx_def
      regex_defs)

section \<open>Properties of the other handlers\<close>

lemma unknown_string_not_found:
  assumes "trim val \<noteq> []" and "store_get st (digest (trim val)) = None"
  shows "get_string digest st (Str val) = Response 404 (ErrorBody ''String not found'')"
proof -
  from assms(1) have "val \<noteq> []" by (auto simp: trim_def)
  with assms show ?thesis by (simp add: get_string_def Let_def)
qed

text \<open>
  Claim C2. The lookup handler of the unnamed file answers 404 for a string that is not
  stored (lemma \<open>unknown_string_not_found\<close>). The lookup handler of src/index.js answers
  200 with an undefined body: here for \<open>abc\<close> on the empty store.
\<close>

theorem unknown_string_answered_200_idx:
  "store_get ([] :: string_record_idx store) (digest (trim (of_ascii ''abc''))) = None
   \<and> get_string_idx digest [] (Str (of_ascii ''abc'')) = Response 200 UndefinedBody"
  by (simp add: get_string_idx_def string_defs store_defs)

lemma post_strings_returns:
  "\<exists>status body. fst (post_strings lc digest now st v) = Response status body"
  by (cases v) (simp_all add: post_strings_def Let_def)

lemma get_string_returns:
  "\<exists>status body. get_string digest st v = Response status body"
  by (cases v) (simp_all add: get_string_def Let_def split: option.splits)

lemma get_strings_returns:
  "\<exists>status body. get_strings lc st q = Response status body"
  by (simp add: get_strings_def Let_def)

lemma delete_string_returns:
  "\<exists>status body. fst (delete_string digest st v) = Response status body"
  by (cases v) (simp_all add: delete_string_def Let_def)

lemma natural_language_handler_returns:
  "\<exists>status body. filter_by_natural_language lc st q = Response status body"
  by (cases q) (simp_all add: filter_by_natural_language_def Let_def split: option.splits)

text \<open>
  Claim C9. Every handler of the unnamed file ends in a response for every input (the
  lemmas above), the natural-language handler too (lemma
  \<open>natural_language_handler_returns\<close>). The handler of src/index.js raises a
  ReferenceError for a non-empty query string: here for \<open>palindromic strings\<close>, on any
  store.
\<close>

theorem natural_language_handler_throws_idx:
  "filter_by_natural_language_idx lc st (Str (of_ascii ''palindromic strings''))
     = Thrown ReferenceError"
  by (simp add: filter_by_natural_language_idx_def of_ascii_def)

lemma matches_no_filters: "matches no_filters obj"
  by (simp add: matches_def no_filters_def truthy_def)

lemma listing_without_parameters:
  "get_strings lc st \<lparr> q_is_palindrome = None, q_min_length = None, q_max_length = None,
      q_word_count = None, q_contains_character = None \<rparr>
   = Response 200 (ListBody (store_values st) (length (store_values st)) no_filters)"
  using matches_no_filters
  by (simp add: get_strings_def truthy_def Let_def no_filters_def [symmetric])

text \<open>
  Claim C1. With no query parameter the listing of the unnamed file returns every stored
  record (lemma \<open>listing_without_parameters\<close>). The listing of src/index.js compares each
  record's flag with \<open>false\<close>: after \<open>a\<close>, a palindrome, has been stored, the listing
  with no parameter is empty.
\<close>

theorem listing_without_parameters_idx:
  "map (is_palidrome \<circ> rec_properties_idx)
     (store_values (snd (post_strings_idx toLowerCase_ascii digest now [] (Str (of_ascii ''a'')))))
     = [True]
   \<and> get_strings_idx toLowerCase_ascii
       (snd (post_strings_idx toLowerCase_ascii digest now [] (Str (of_ascii ''a''))))
       \<lparr> q_is_palidrome = None, q_min_length_idx = None, q_max_length_idx = None,
         q_word_count_idx = None, q_contains_character_idx = None \<rparr>
     = Response 200 (ListBody [] 0
         \<lparr> f_is_palidrome = False, f_min_length_idx = None, f_max_length_idx = None,
           f_word_count_idx = None, f_contains_character_idx = None \<rparr>)"
  by (simp add: post_strings_idx_def get_strings_idx_def matches_idx_def truthy_def Let_def
      string_defs store_defs)

lemma word_count_filter:
  assumes "matches f obj" and "f_word_count f = Some n"
  shows "n = Num (int (word_count (rec_properties obj)))"
  using assms by (simp add: matches_def Let_def num_strict_neq_def split: if_splits)

lemma word_count_listing:
  assumes "get_strings lc st q = Response 200 (ListBody data c f)"
    and "q_word_count q = Some w" and "w \<noteq> []"
  shows "list_all (\<lambda>obj. Num (int (word_count (rec_properties obj))) = parseInt w) data"
proof -
  from assms have f: "f_word_count f = Some (parseInt w)"
    and d: "data = filter (matches f) (store_values st)"
    by (auto simp: get_strings_def Let_def truthy_def split: if_splits)
  show ?thesis
    unfolding d list_all_iff using word_count_filter[OF _ f] by auto
qed

text \<open>
  Claim C3. In the unnamed file every record the listing returns for a \<open>word_count\<close>
  parameter has exactly that word count (lemmas \<open>word_count_filter\<close> and
  \<open>word_count_listing\<close>). The listing of src/index.js parses the parameter and never
  compares it: after \<open>ab\<close>, one word, has been stored, the listing for \<open>word_count=5\<close>
  returns it.
\<close>

theorem word_count_ignored_idx:
  "map (word_count_idx \<circ> rec_properties_idx)
     (store_values (snd (post_strings_idx toLowerCase_ascii digest now [] (Str (of_ascii ''ab'')))))
     = [1]
   \<and> get_strings_idx toLowerCase_ascii
       (snd (post_strings_idx toLowerCase_ascii digest now [] (Str (of_ascii ''ab''))))
       \<lparr> q_is_palidrome = None, q_min_length_idx = None, q_max_length_idx = None,
         q_word_count_idx = Some (of_ascii ''5''), q_contains_character_idx = None \<rparr>
     = Response 200 (ListBody
         (store_values (snd (post_strings_idx toLowerCase_ascii digest now []
            (Str (of_ascii ''ab'')))))
         1
         \<lparr> f_is_palidrome = False, f_min_length_idx = None, f_max_length_idx = None,
           f_word_count_idx = Some (Num 5), f_contains_character_idx = None \<rparr>)"
  by (simp add: post_strings_idx_def get_strings_idx_def matches_idx_def truthy_def Let_def
      string_defs store_defs number_defs isNaN_def)

end
